theory Spec2Isabelle
  imports Main "HOL-Library.Word"
begin

section \<open>The register based SPI slave of fw/register\_spi\_slave.h\<close>

text \<open>
  The class \<open>RegisterSPISlave\<close> is an interrupt driven state machine. Its three
  interrupt handlers (\<open>ISR_HandleNssFall\<close>, \<open>ISR_HandleNssRise\<close>, \<open>ISR_SPI\<close>) are
  embedded as functions from the object's state to the object's state. Everything a
  handler touches is a field of that state: the members of the class, the SPI register
  block behind \<open>spi_\<close>, the memory the transfer buffers point into, and a log of the
  calls made to the two application handlers.

  Integers have the widths of the 32 bit target: \<open>size_t\<close> and \<open>ssize_t\<close> are 32 bit
  words (the second read as two's complement), \<open>uint16_t\<close> a 16 bit word, a register
  byte an 8 bit word. Arithmetic on them wraps around.
\<close>

subsection \<open>Data\<close>

type_synonym byte = "8 word"

type_synonym addr = "32 word"

text \<open>Byte addressed memory: the buffers of a transaction are views into it.\<close>

type_synonym store = "addr \<Rightarrow> byte"

text \<open>
  \<open>std::string_view\<close>: a pointer and an unsigned length. \<open>mjlib::base::string_span\<close>: a
  pointer and a length of the signed index type; its header is not part of the source
  tree, the comparison \<open>rx_bytes_ < buffer_.rx.size()\<close> is taken as the signed one between
  \<open>ssize_t\<close> and that index type.
\<close>

record string_view =
  sv_data :: addr
  sv_size :: "32 word"

record string_span =
  sp_data :: addr
  sp_size :: "32 word"

record Buffer =
  tx :: string_view
  rx :: string_span

datatype Mode = kInactive | kWaitingAddress | kTransfer

text \<open>
  The application handlers run inside the interrupt. They see the address (and the
  count) and the memory, and may change the memory; the start handler returns the
  buffer pair.
\<close>

type_synonym StartHandler = "16 word \<Rightarrow> store \<Rightarrow> Buffer \<times> store"

type_synonym EndHandler = "16 word \<Rightarrow> 32 word \<Rightarrow> store \<Rightarrow> store"

text \<open>The log of handler invocations, in order, with their arguments.\<close>

datatype call = StartCall "16 word" | EndCall "16 word" int

text \<open>
  The SPI register block as the handlers use it. \<open>rxfifo\<close> holds the bytes shifted in
  and not yet read from \<open>DR\<close>; the flag \<open>RXNE\<close> of \<open>SR\<close> is set while it is not empty.
  \<open>txfifo\<close> holds the bytes written to \<open>DR\<close> and not yet shifted out; the flag \<open>TXE\<close> is
  set while it holds fewer than \<open>txdepth\<close> bytes, a constant of the hardware.
  \<open>dr_log\<close> records every byte written to \<open>DR\<close>, in order; a reset of the peripheral
  does not clear this record.
\<close>

record SPI_TypeDef =
  rxfifo :: "byte list"
  txfifo :: "byte list"
  txdepth :: nat
  dr_log :: "byte list"

text \<open>
  The platform header defines some or all of \<open>SPI1\<close> to \<open>SPI4\<close>. The member \<open>spi_\<close>
  of a constructed object points to one of them (construction ends in \<open>mbed_die\<close>
  otherwise) and is never assigned again: the object holds which one it is, beside the
  register block itself.
\<close>

datatype SPI_Instance = SPI1 | SPI2 | SPI3 | SPI4

record RegisterSPISlave =
  spi_instance :: SPI_Instance
  spi :: SPI_TypeDef
  status_led :: int
  mode :: Mode
  current_address :: "16 word"
  buffer :: Buffer
  tx_bytes :: "32 word"
  rx_bytes :: "32 word"
  mem :: store
  calls :: "call list"

subsection \<open>Register access\<close>

definition RXNE :: "SPI_TypeDef \<Rightarrow> bool" where
  "RXNE p = (rxfifo p \<noteq> [])"

definition TXE :: "SPI_TypeDef \<Rightarrow> bool" where
  "TXE p = (length (txfifo p) < txdepth p)"

text \<open>
  A read of \<open>DR\<close> takes the oldest received byte out of the queue. With the queue empty
  the register reads as 0, its value after a reset.
\<close>

definition ReadRegister :: "SPI_TypeDef \<Rightarrow> byte \<times> SPI_TypeDef" where
  "ReadRegister p =
     (case rxfifo p of [] \<Rightarrow> (0, p) | b # bs \<Rightarrow> (b, p\<lparr>rxfifo := bs\<rparr>))"

definition WriteRegister :: "byte \<Rightarrow> SPI_TypeDef \<Rightarrow> SPI_TypeDef" where
  "WriteRegister v p = p\<lparr>txfifo := txfifo p @ [v], dr_log := dr_log p @ [v]\<rparr>"

text \<open>
  \<open>EnableSPI\<close> enables the clock of the instance and pulses a reset bit of \<open>RCC\<close>. The
  branches for \<open>SPI1\<close>, \<open>SPI2\<close> and \<open>SPI3\<close> pulse the bit of their own instance; the
  branch for \<open>SPI4\<close> pulses \<open>RCC_APB2RSTR_SPI1RST\<close>, the bit of \<open>SPI1\<close>.
  \<open>reset_pulsed\<close> is the instance whose bit a branch pulses. A reset empties both
  queues of the peripheral it goes to; a reset that goes to another peripheral leaves
  the queues of this one as they are.
\<close>

fun reset_pulsed :: "SPI_Instance \<Rightarrow> SPI_Instance" where
  "reset_pulsed SPI1 = SPI1"
| "reset_pulsed SPI2 = SPI2"
| "reset_pulsed SPI3 = SPI3"
| "reset_pulsed SPI4 = SPI1"

definition EnableSPI :: "SPI_Instance \<Rightarrow> SPI_TypeDef \<Rightarrow> SPI_TypeDef" where
  "EnableSPI i p = (if reset_pulsed i = i then p\<lparr>rxfifo := [], txfifo := []\<rparr> else p)"

text \<open>
  \<open>Init\<close> calls \<open>EnableSPI\<close>, configures the peripheral through the vendor library,
  enables the receive interrupt and enables the peripheral. The configuration leaves
  the two queues as they are: by the comment in \<open>ISR_HandleNssRise\<close> only the complete
  re-initialisation, that is the reset, flushes them.
\<close>

definition Init :: "SPI_Instance \<Rightarrow> SPI_TypeDef \<Rightarrow> SPI_TypeDef" where
  "Init i p = EnableSPI i p"

text \<open>A 16 bit store to memory, low byte first.\<close>

definition store16 :: "store \<Rightarrow> addr \<Rightarrow> 16 word \<Rightarrow> store" where
  "store16 m a v = m(a := ucast v, a + 1 := ucast (drop_bit 8 v))"

subsection \<open>The handlers\<close>

definition PollMillisecond :: "RegisterSPISlave \<Rightarrow> RegisterSPISlave" where
  "PollMillisecond s = s\<lparr>status_led := 1\<rparr>"

definition ISR_HandleNssRise :: "EndHandler \<Rightarrow> RegisterSPISlave \<Rightarrow> RegisterSPISlave" where
  "ISR_HandleNssRise end_handler s =
     (let s1 = (if mode s = kTransfer
                then s\<lparr>mem := end_handler (current_address s) (rx_bytes s) (mem s),
                       calls := calls s @ [EndCall (current_address s) (sint (rx_bytes s))]\<rparr>
                else s);
          s2 = s1\<lparr>tx_bytes := 0, rx_bytes := 0\<rparr>;
          s3 = s2\<lparr>spi := Init (spi_instance s2) (spi s2)\<rparr>
      in s3\<lparr>mode := kInactive\<rparr>)"

text \<open>
  The last statement of \<open>ISR_HandleNssFall\<close> is \<open>*(__IO uint16_t *)spi_->DR = 0x0000\<close>:
  the cast applies to the value read from \<open>DR\<close>, so the statement reads the register
  and stores a 16 bit zero at the address that value names. It is embedded as written:
  the read takes the oldest received byte, if there is one, as every read of \<open>DR\<close>
  does, and the store goes to the memory. Nothing is written to \<open>DR\<close>.
\<close>

definition ISR_HandleNssFall :: "RegisterSPISlave \<Rightarrow> RegisterSPISlave" where
  "ISR_HandleNssFall s =
     (let s1 = s\<lparr>status_led := 0\<rparr>;
          s2 = s1\<lparr>mode := kWaitingAddress\<rparr>;
          (v, p) = ReadRegister (spi s2)
      in s2\<lparr>spi := p, mem := store16 (mem s2) (ucast v) 0\<rparr>)"

function ISR_PrepareTx :: "RegisterSPISlave \<Rightarrow> RegisterSPISlave" where
  "ISR_PrepareTx s =
     (if TXE (spi s) then
        (let this_offset = tx_bytes s;
             s1 = s\<lparr>tx_bytes := tx_bytes s + 1\<rparr>;
             this_byte = (if this_offset < sv_size (tx (buffer s1))
                          then mem s1 (sv_data (tx (buffer s1)) + this_offset) else 0)
         in ISR_PrepareTx (s1\<lparr>spi := WriteRegister this_byte (spi s1)\<rparr>))
      else s)"
  by pat_completeness auto

termination
  by (relation "measure (\<lambda>s. txdepth (spi s) - length (txfifo (spi s)))")
     (auto simp: TXE_def WriteRegister_def)

declare ISR_PrepareTx.simps [simp del]

text \<open>One pass through the body of the loop of \<open>ISR_SPI\<close>: the \<open>switch\<close> on \<open>mode_\<close>.\<close>

definition ISR_SPI_body :: "StartHandler \<Rightarrow> RegisterSPISlave \<Rightarrow> RegisterSPISlave" where
  "ISR_SPI_body start_handler s =
     (case mode s of
        kInactive \<Rightarrow> s\<lparr>spi := snd (ReadRegister (spi s))\<rparr>
      | kWaitingAddress \<Rightarrow>
          (let (b, p) = ReadRegister (spi s);
               s1 = s\<lparr>spi := p, current_address := ucast b\<rparr>;
               (buf, m) = start_handler (current_address s1) (mem s1);
               s2 = s1\<lparr>buffer := buf, mem := m,
                       calls := calls s1 @ [StartCall (current_address s1)]\<rparr>;
               s3 = ISR_PrepareTx s2
           in s3\<lparr>mode := kTransfer\<rparr>)
      | kTransfer \<Rightarrow>
          (let (this_byte, p) = ReadRegister (spi s);
               s1 = s\<lparr>spi := p\<rparr>;
               s2 = (if rx_bytes s1 <s sp_size (rx (buffer s1))
                     then s1\<lparr>mem := (mem s1)(sp_data (rx (buffer s1)) + rx_bytes s1 := this_byte)\<rparr>
                     else s1);
               s3 = s2\<lparr>rx_bytes := rx_bytes s2 + 1\<rparr>
           in ISR_PrepareTx s3))"

text \<open>One pass through the body of the loop of \<open>ISR_PrepareTx\<close>, on its own.\<close>

definition tx_pass :: "RegisterSPISlave \<Rightarrow> RegisterSPISlave" where
  "tx_pass s =
     s\<lparr>tx_bytes := tx_bytes s + 1,
       spi := WriteRegister
         (if tx_bytes s < sv_size (tx (buffer s))
          then mem s (sv_data (tx (buffer s)) + tx_bytes s) else 0) (spi s)\<rparr>"

text \<open>
  Neither loop body puts a byte into the receive queue, and every pass of the body of
  \<open>ISR_SPI\<close> that finds \<open>RXNE\<close> set takes one out: the loop of \<open>ISR_SPI\<close> ends.
\<close>

function ISR_SPI :: "StartHandler \<Rightarrow> RegisterSPISlave \<Rightarrow> RegisterSPISlave" where
  "ISR_SPI start_handler s =
     (if RXNE (spi s) then ISR_SPI start_handler (ISR_SPI_body start_handler s) else s)"
  by pat_completeness auto

termination
proof (relation "measure (\<lambda>(h, s). length (rxfifo (spi s)))")
  show "wf (measure (\<lambda>(h :: StartHandler, s). length (rxfifo (spi s))))"
    by simp
next
  fix start_handler :: StartHandler and s :: RegisterSPISlave
  assume rxne: "RXNE (spi s)"
  have unfold: "ISR_PrepareTx u = (if TXE (spi u) then ISR_PrepareTx (tx_pass u) else u)" for u
    by (subst ISR_PrepareTx.simps) (simp add: Let_def tx_pass_def)
  have prep: "rxfifo (spi (ISR_PrepareTx u)) = rxfifo (spi u)" for u
  proof (induction "txdepth (spi u) - length (txfifo (spi u))" arbitrary: u rule: less_induct)
    case less
    show ?case
    proof (cases "TXE (spi u)")
      case True
      then have "txdepth (spi (tx_pass u)) - length (txfifo (spi (tx_pass u)))
          < txdepth (spi u) - length (txfifo (spi u))"
        by (simp add: tx_pass_def WriteRegister_def TXE_def)
      then have "rxfifo (spi (ISR_PrepareTx (tx_pass u))) = rxfifo (spi (tx_pass u))"
        by (rule less)
      then show ?thesis
        using True by (subst unfold) (simp add: tx_pass_def WriteRegister_def)
    next
      case False
      then show ?thesis by (subst unfold) simp
    qed
  qed
  have "rxfifo (spi (ISR_SPI_body start_handler s)) = tl (rxfifo (spi s))"
    by (cases "mode s"; cases "rxfifo (spi s)")
       (simp_all add: ISR_SPI_body_def ReadRegister_def Let_def prep split: prod.split)
  then show "((start_handler, ISR_SPI_body start_handler s), (start_handler, s))
      \<in> measure (\<lambda>(h, s). length (rxfifo (spi s)))"
    using rxne by (simp add: RXNE_def)
qed

declare ISR_SPI.simps [simp del]

subsection \<open>Events\<close>

text \<open>
  What happens to the object after construction: the two edges of the select line, the
  SPI interrupt, the periodic call of \<open>PollMillisecond\<close>, and the master clocking one
  byte through the peripheral (the byte is queued for reception and the oldest queued
  transmit byte, if any, leaves the transmit queue).
\<close>

datatype event = NssFall | NssRise | SpiIrq | Clock byte | PollMs

definition shift_byte :: "byte \<Rightarrow> SPI_TypeDef \<Rightarrow> SPI_TypeDef" where
  "shift_byte b p = p\<lparr>rxfifo := rxfifo p @ [b], txfifo := tl (txfifo p)\<rparr>"

fun step :: "StartHandler \<Rightarrow> EndHandler \<Rightarrow> event \<Rightarrow> RegisterSPISlave \<Rightarrow> RegisterSPISlave" where
  "step sh eh NssFall s = ISR_HandleNssFall s"
| "step sh eh NssRise s = ISR_HandleNssRise eh s"
| "step sh eh SpiIrq s = ISR_SPI sh s"
| "step sh eh (Clock b) s = s\<lparr>spi := shift_byte b (spi s)\<rparr>"
| "step sh eh PollMs s = PollMillisecond s"

fun run :: "StartHandler \<Rightarrow> EndHandler \<Rightarrow> event list \<Rightarrow> RegisterSPISlave \<Rightarrow> RegisterSPISlave" where
  "run sh eh [] s = s"
| "run sh eh (e # es) s = run sh eh es (step sh eh e s)"

text \<open>The bytes the master clocks in during a list of events.\<close>

fun clocked :: "event list \<Rightarrow> byte list" where
  "clocked [] = []"
| "clocked (Clock b # es) = b # clocked es"
| "clocked (e # es) = clocked es"

text \<open>Events that leave the select line alone.\<close>

fun select_edge :: "event \<Rightarrow> bool" where
  "select_edge NssFall = True"
| "select_edge NssRise = True"
| "select_edge e = False"

text \<open>
  What the master receives during a list of events: for every byte it clocks, the byte
  that leaves the transmit queue, or nothing when the queue is empty.
\<close>

fun shifted_out :: "StartHandler \<Rightarrow> EndHandler \<Rightarrow> event list \<Rightarrow> RegisterSPISlave \<Rightarrow> byte option list" where
  "shifted_out sh eh [] s = []"
| "shifted_out sh eh (Clock b # es) s =
     (case txfifo (spi s) of [] \<Rightarrow> None | x # xs \<Rightarrow> Some x) #
     shifted_out sh eh es (step sh eh (Clock b) s)"
| "shifted_out sh eh (e # es) s = shifted_out sh eh es (step sh eh e s)"

subsection \<open>Construction\<close>

text \<open>
  \<open>merge\<close> is a template; \<open>T()\<close> is the value-initialised \<open>T\<close>, zero for the integer
  type it is used at.
\<close>

definition merge :: "'a::zero \<Rightarrow> 'a \<Rightarrow> 'a" where
  "merge a b = (if a = b then a else 0)"

type_synonym PinName = "32 word"

record Pins =
  mosi :: PinName
  miso :: PinName
  sclk :: PinName
  ssel :: PinName
  pin_status_led :: PinName

text \<open>
  The pin tables of \<open>PeripheralPins.h\<close> and \<open>pinmap_peripheral\<close> belong to the platform
  library: a table is taken as the function from a pin to the peripheral
  \<open>pinmap_peripheral\<close> returns for it.
\<close>

record PeripheralPins =
  PinMap_SPI_MOSI :: "PinName \<Rightarrow> 32 word"
  PinMap_SPI_MISO :: "PinName \<Rightarrow> 32 word"
  PinMap_SPI_SCLK :: "PinName \<Rightarrow> 32 word"
  PinMap_SPI_SSEL :: "PinName \<Rightarrow> 32 word"

text \<open>The lambda of the constructor that computes \<open>spi_\<close>.\<close>

definition resolve_spi :: "PeripheralPins \<Rightarrow> Pins \<Rightarrow> 32 word" where
  "resolve_spi maps pins =
     (let spi_mosi = PinMap_SPI_MOSI maps (mosi pins);
          spi_miso = PinMap_SPI_MISO maps (miso pins);
          spi_sclk = PinMap_SPI_SCLK maps (sclk pins);
          spi_ssel = PinMap_SPI_SSEL maps (ssel pins)
      in merge spi_mosi (merge spi_miso (merge spi_sclk spi_ssel)))"

text \<open>
  The instances the platform defines, each with the address of its register block
  (\<open>None\<close> where the header does not define \<open>SPIn_BASE\<close>), and the branch of
  \<open>EnableSPI\<close> a pointer takes: the first instance, in the order of the source, that
  it equals.
\<close>

type_synonym Platform = "SPI_Instance \<Rightarrow> 32 word option"

definition find_instance :: "Platform \<Rightarrow> 32 word \<Rightarrow> SPI_Instance option" where
  "find_instance platform spi_ptr =
     (if platform SPI1 = Some spi_ptr then Some SPI1
      else if platform SPI2 = Some spi_ptr then Some SPI2
      else if platform SPI3 = Some spi_ptr then Some SPI3
      else if platform SPI4 = Some spi_ptr then Some SPI4
      else None)"

text \<open>
  The ways construction ends without an object: \<open>MJ_ASSERT\<close> fails, or \<open>EnableSPI\<close>
  (called by \<open>Init\<close>) reaches \<open>mbed_die\<close> because \<open>spi_\<close> is none of the instances the
  platform defines. The depth of the transmit queue and the memory are those of the
  machine. The pin configuration and the registration of the interrupt handlers change
  nothing in the state of the object. The object starts with the values of the member
  initialisers and a peripheral that holds no byte, and the constructor calls \<open>Init\<close>
  on it.
\<close>

datatype error = AssertionFailed | MbedDie

definition initial :: "SPI_Instance \<Rightarrow> nat \<Rightarrow> store \<Rightarrow> RegisterSPISlave" where
  "initial i depth m =
     \<lparr>spi_instance = i,
      spi = \<lparr>rxfifo = [], txfifo = [], txdepth = depth, dr_log = []\<rparr>,
      status_led = 1,
      mode = kInactive,
      current_address = 0,
      buffer = \<lparr>tx = \<lparr>sv_data = 0, sv_size = 0\<rparr>, rx = \<lparr>sp_data = 0, sp_size = 0\<rparr>\<rparr>,
      tx_bytes = 0,
      rx_bytes = 0,
      mem = m,
      calls = []\<rparr>"

definition construct ::
  "Platform \<Rightarrow> PeripheralPins \<Rightarrow> nat \<Rightarrow> store \<Rightarrow> Pins \<Rightarrow> error + RegisterSPISlave" where
  "construct platform maps depth m pins =
     (let spi_ptr = resolve_spi maps pins
      in if \<not> (spi_ptr \<noteq> 0) then Inl AssertionFailed
         else case find_instance platform spi_ptr of
                None \<Rightarrow> Inl MbedDie
              | Some i \<Rightarrow>
                  Inr ((initial i depth m)\<lparr>spi := Init i (spi (initial i depth m))\<rparr>))"

section \<open>Notions used in the properties\<close>

subsection \<open>The transmit side\<close>

text \<open>
  The number of passes the loop of \<open>ISR_PrepareTx\<close> makes: the free places of the
  transmit queue.
\<close>

definition free_slots :: "SPI_TypeDef \<Rightarrow> nat" where
  "free_slots p = txdepth p - length (txfifo p)"

text \<open>
  The byte the claims expect in transmit slot \<open>i\<close>: the byte of the \<open>tx\<close> view at that
  offset while the offset is inside the view, zero from there on. \<open>tx_fills B m c k\<close>
  are the bytes of the \<open>k\<close> slots from offset \<open>c\<close> on.
\<close>

definition tx_padded :: "Buffer \<Rightarrow> store \<Rightarrow> 32 word \<Rightarrow> byte" where
  "tx_padded B m i = (if i < sv_size (tx B) then m (sv_data (tx B) + i) else 0)"

definition tx_fills :: "Buffer \<Rightarrow> store \<Rightarrow> 32 word \<Rightarrow> nat \<Rightarrow> byte list" where
  "tx_fills B m c k = map (\<lambda>i. tx_padded B m (c + of_nat i)) [0..<k]"






subsection \<open>The receive side and the select cycle\<close>

text \<open>
  What the claims expect of the data phase: the memory after the bytes \<open>bs\<close> have been
  received through the span \<open>sp\<close> at count \<open>r\<close>. A byte is stored at the count's offset
  when the count is below the span's size; the count goes up either way.
\<close>

fun rx_stores :: "string_span \<Rightarrow> 32 word \<Rightarrow> byte list \<Rightarrow> store \<Rightarrow> store" where
  "rx_stores sp r [] m = m"
| "rx_stores sp r (b # bs) m =
     rx_stores sp (r + 1) bs (if r <s sp_size sp then m(sp_data sp + r := b) else m)"

text \<open>
  The two situations a select cycle can be in, \<open>inp\<close> being the bytes received since
  the state \<open>s\<close>: no byte has been read yet, or the first byte \<open>a\<close> was read as the address
  and the bytes \<open>cs\<close> after it as data.
\<close>

definition still_waiting :: "RegisterSPISlave \<Rightarrow> byte list \<Rightarrow> RegisterSPISlave \<Rightarrow> bool" where
  "still_waiting s inp s' =
     (mode s' = kWaitingAddress \<and> rxfifo (spi s') = inp \<and> calls s' = calls s \<and>
      mem s' = mem s \<and> buffer s' = buffer s \<and> current_address s' = current_address s \<and>
      rx_bytes s' = rx_bytes s \<and> tx_bytes s' = tx_bytes s \<and>
      dr_log (spi s') = dr_log (spi s) \<and> txdepth (spi s') = txdepth (spi s))"

definition addressed ::
  "StartHandler \<Rightarrow> RegisterSPISlave \<Rightarrow> byte list \<Rightarrow> RegisterSPISlave \<Rightarrow> bool" where
  "addressed sh s inp s' =
     (\<exists>a cs. inp = a # cs @ rxfifo (spi s') \<and> mode s' = kTransfer \<and>
        calls s' = calls s @ [StartCall (ucast a)] \<and> current_address s' = ucast a \<and>
        buffer s' = fst (sh (ucast a) (mem s)) \<and>
        rx_bytes s' = rx_bytes s + of_nat (length cs) \<and>
        mem s' = rx_stores (rx (fst (sh (ucast a) (mem s)))) (rx_bytes s) cs
                   (snd (sh (ucast a) (mem s))) \<and>
        txdepth (spi s') = txdepth (spi s))"

text \<open>
  \<open>pending_end\<close> counts the end calls made so far, and one more while a select cycle is
  open: only a falling edge can raise it.
\<close>

fun is_end :: "call \<Rightarrow> bool" where
  "is_end (EndCall a n) = True"
| "is_end (StartCall a) = False"

definition pending_end :: "RegisterSPISlave \<Rightarrow> nat" where
  "pending_end s = length (filter is_end (calls s)) + (if mode s = kInactive then 0 else 1)"

text \<open>
  Two states are \<open>stale_only\<close> apart when they differ at most in the stored buffer pair
  and the stored address and no transfer is open. \<open>observable\<close> is the rest of the
  state: the mode, the counters, the peripheral with the bytes written to it, the
  memory, the calls made and the indicator.
\<close>

definition stale_only :: "RegisterSPISlave \<Rightarrow> RegisterSPISlave \<Rightarrow> bool" where
  "stale_only s t =
     (mode s \<noteq> kTransfer \<and> t = s\<lparr>buffer := buffer t, current_address := current_address t\<rparr>)"

definition observable ::
  "RegisterSPISlave \<Rightarrow> Mode \<times> 32 word \<times> 32 word \<times> SPI_TypeDef \<times> store \<times> call list \<times> int" where
  "observable s = (mode s, tx_bytes s, rx_bytes s, spi s, mem s, calls s, status_led s)"

subsection \<open>A concrete transaction\<close>

text \<open>
  The scenario of the specification: the start handler answers every address with a
  three byte \<open>tx\<close> view at \<open>0x100\<close> holding \<open>AA BB CC\<close> and a five byte \<open>rx\<close> span at
  \<open>0x200\<close>; the end handler leaves the memory alone.
\<close>

definition demo_mem :: store where
  "demo_mem = (\<lambda>a. 0)(0x100 := 0xAA, 0x101 := 0xBB, 0x102 := 0xCC)"

definition demo_buffer :: Buffer where
  "demo_buffer = \<lparr>tx = \<lparr>sv_data = 0x100, sv_size = 3\<rparr>, rx = \<lparr>sp_data = 0x200, sp_size = 5\<rparr>\<rparr>"

definition demo_start :: StartHandler where
  "demo_start a m = (demo_buffer, m)"

definition demo_end :: EndHandler where
  "demo_end a n m = m"

text \<open>
  A platform that defines the four instances, and pin tables with pins on \<open>SPI1\<close>,
  \<open>SPI2\<close> and \<open>SPI4\<close>, for a concrete construction.
\<close>

definition demo_platform :: Platform where
  "demo_platform =
     (\<lambda>i. case i of SPI1 \<Rightarrow> Some 0x40013000 | SPI2 \<Rightarrow> Some 0x40003800
                  | SPI3 \<Rightarrow> Some 0x40003C00 | SPI4 \<Rightarrow> Some 0x40013C00)"

definition NC :: "32 word" where "NC = 0xFFFFFFFF"

definition demo_maps :: PeripheralPins where
  "demo_maps =
     \<lparr>PinMap_SPI_MOSI = (\<lambda>p. if p = 7 then 0x40013000 else if p = 31 then 0x40003800
                             else if p = 47 then 0x40013C00 else NC),
      PinMap_SPI_MISO = (\<lambda>p. if p = 6 then 0x40013000 else if p = 30 then 0x40003800
                             else if p = 46 then 0x40013C00 else NC),
      PinMap_SPI_SCLK = (\<lambda>p. if p = 5 then 0x40013000 else if p = 29 then 0x40003800
                             else if p = 45 then 0x40013C00 else NC),
      PinMap_SPI_SSEL = (\<lambda>p. if p = 4 then 0x40013000 else if p = 28 then 0x40003800
                             else if p = 44 then 0x40013C00 else NC)\<rparr>"

text \<open>
  A start handler that answers the address \<open>0x20\<close> with other buffers: a three byte
  \<open>tx\<close> view at \<open>0x110\<close> holding \<open>11 22 33\<close> and a five byte \<open>rx\<close> span at \<open>0x210\<close>.
\<close>

definition demo_mem2 :: store where
  "demo_mem2 = demo_mem(0x110 := 0x11, 0x111 := 0x22, 0x112 := 0x33)"

definition demo_start2 :: StartHandler where
  "demo_start2 a m =
     (if a = 0x20
      then (\<lparr>tx = \<lparr>sv_data = 0x110, sv_size = 3\<rparr>, rx = \<lparr>sp_data = 0x210, sp_size = 5\<rparr>\<rparr>, m)
      else (demo_buffer, m))"

section \<open>Properties of the handlers\<close>

subsection \<open>Filling the transmit queue\<close>

lemma ISR_PrepareTx_unfold:
  "ISR_PrepareTx s = (if TXE (spi s) then ISR_PrepareTx (tx_pass s) else s)"
  by (subst ISR_PrepareTx.simps) (simp add: Let_def tx_pass_def)

lemma tx_fills_0: "tx_fills B m c 0 = []"
  by (simp add: tx_fills_def)

lemma tx_fills_Suc_left: "tx_fills B m c (Suc k) = tx_padded B m c # tx_fills B m (c + 1) k"
proof -
  have "[0..<Suc k] = 0 # map Suc [0..<k]"
    by (simp add: upt_conv_Cons map_Suc_upt del: upt_Suc)
  then show ?thesis
    by (simp add: tx_fills_def comp_def add.assoc del: upt_Suc)
qed


lemma tx_pass_eq:
  "tx_pass s = s\<lparr>tx_bytes := tx_bytes s + 1,
     spi := (spi s)\<lparr>txfifo := txfifo (spi s) @ [tx_padded (buffer s) (mem s) (tx_bytes s)],
                    dr_log := dr_log (spi s) @ [tx_padded (buffer s) (mem s) (tx_bytes s)]\<rparr>\<rparr>"
  by (simp add: tx_pass_def WriteRegister_def tx_padded_def)

lemma ISR_PrepareTx_eq:
  "ISR_PrepareTx s =
     s\<lparr>tx_bytes := tx_bytes s + of_nat (free_slots (spi s)),
       spi := (spi s)\<lparr>
         txfifo := txfifo (spi s) @ tx_fills (buffer s) (mem s) (tx_bytes s) (free_slots (spi s)),
         dr_log := dr_log (spi s) @ tx_fills (buffer s) (mem s) (tx_bytes s) (free_slots (spi s))\<rparr>\<rparr>"
proof (induction "free_slots (spi s)" arbitrary: s)
  case 0
  then have "\<not> TXE (spi s)" by (simp add: free_slots_def TXE_def)
  then have "ISR_PrepareTx s = s" by (subst ISR_PrepareTx_unfold) simp
  with 0 [symmetric] show ?case by (simp add: tx_fills_0)
next
  case (Suc k)
  from Suc.hyps(2) have txe: "TXE (spi s)" by (simp add: free_slots_def TXE_def)
  have k: "k = free_slots (spi (tx_pass s))"
    using Suc.hyps(2) by (simp add: tx_pass_eq free_slots_def)
  have "ISR_PrepareTx s = ISR_PrepareTx (tx_pass s)"
    using txe by (subst ISR_PrepareTx_unfold) simp
  also note Suc.hyps(1) [OF k]
  finally show ?case
    unfolding k [symmetric] Suc.hyps(2) [symmetric]
    by (simp add: tx_pass_eq tx_fills_Suc_left add.assoc)
qed

lemma ISR_PrepareTx_frame:
  "mode (ISR_PrepareTx s) = mode s \<and> current_address (ISR_PrepareTx s) = current_address s \<and>
   buffer (ISR_PrepareTx s) = buffer s \<and> rx_bytes (ISR_PrepareTx s) = rx_bytes s \<and>
   mem (ISR_PrepareTx s) = mem s \<and> calls (ISR_PrepareTx s) = calls s \<and>
   status_led (ISR_PrepareTx s) = status_led s \<and>
   rxfifo (spi (ISR_PrepareTx s)) = rxfifo (spi s) \<and>
   txdepth (spi (ISR_PrepareTx s)) = txdepth (spi s)"
  by (subst (1 2 3 4 5 6 7 8 9) ISR_PrepareTx_eq) simp

subsection \<open>The receive loop\<close>

lemma body_inactive:
  "mode s = kInactive \<Longrightarrow>
   ISR_SPI_body sh s = s\<lparr>spi := (spi s)\<lparr>rxfifo := tl (rxfifo (spi s))\<rparr>\<rparr>"
  by (cases "rxfifo (spi s)") (simp_all add: ISR_SPI_body_def ReadRegister_def)

lemma body_transfer:
  "mode s = kTransfer \<Longrightarrow> rxfifo (spi s) = b # bs \<Longrightarrow>
   ISR_SPI_body sh s =
     ISR_PrepareTx (s\<lparr>spi := (spi s)\<lparr>rxfifo := bs\<rparr>,
       mem := (if rx_bytes s <s sp_size (rx (buffer s))
               then (mem s)(sp_data (rx (buffer s)) + rx_bytes s := b) else mem s),
       rx_bytes := rx_bytes s + 1\<rparr>)"
  by (simp add: ISR_SPI_body_def ReadRegister_def Let_def)

lemma body_address:
  "mode s = kWaitingAddress \<Longrightarrow> rxfifo (spi s) = b # bs \<Longrightarrow>
   ISR_SPI_body sh s =
     (ISR_PrepareTx (s\<lparr>spi := (spi s)\<lparr>rxfifo := bs\<rparr>,
        current_address := ucast b,
        buffer := fst (sh (ucast b) (mem s)),
        mem := snd (sh (ucast b) (mem s)),
        calls := calls s @ [StartCall (ucast b)]\<rparr>))\<lparr>mode := kTransfer\<rparr>"
  by (simp add: ISR_SPI_body_def ReadRegister_def Let_def split: prod.split)

lemma ISR_SPI_empty: "rxfifo (spi s) = [] \<Longrightarrow> ISR_SPI sh s = s"
  by (subst ISR_SPI.simps) (simp add: RXNE_def)

lemma ISR_SPI_Cons:
  "rxfifo (spi s) = b # bs \<Longrightarrow> ISR_SPI sh s = ISR_SPI sh (ISR_SPI_body sh s)"
  by (subst ISR_SPI.simps) (simp add: RXNE_def)

lemma ISR_SPI_inactive:
  "mode s = kInactive \<Longrightarrow> ISR_SPI sh s = s\<lparr>spi := (spi s)\<lparr>rxfifo := []\<rparr>\<rparr>"
proof (induction "rxfifo (spi s)" arbitrary: s)
  case Nil
  then show ?case by (simp add: ISR_SPI_empty)
next
  case (Cons b bs)
  let ?t = "s\<lparr>spi := (spi s)\<lparr>rxfifo := tl (rxfifo (spi s))\<rparr>\<rparr>"
  have "ISR_SPI sh s = ISR_SPI sh ?t"
    using Cons.hyps(2) [symmetric] Cons.prems by (simp add: ISR_SPI_Cons body_inactive)
  also have "\<dots> = ?t\<lparr>spi := (spi ?t)\<lparr>rxfifo := []\<rparr>\<rparr>"
    by (rule Cons.hyps(1)) (use Cons in \<open>simp_all add: Cons.hyps(2) [symmetric]\<close>)
  finally show ?case by simp
qed

lemma ISR_SPI_transfer:
  "mode s = kTransfer \<Longrightarrow>
   mode (ISR_SPI sh s) = kTransfer \<and> current_address (ISR_SPI sh s) = current_address s \<and>
   buffer (ISR_SPI sh s) = buffer s \<and> calls (ISR_SPI sh s) = calls s \<and>
   status_led (ISR_SPI sh s) = status_led s \<and>
   txdepth (spi (ISR_SPI sh s)) = txdepth (spi s) \<and>
   rxfifo (spi (ISR_SPI sh s)) = [] \<and>
   rx_bytes (ISR_SPI sh s) = rx_bytes s + of_nat (length (rxfifo (spi s))) \<and>
   mem (ISR_SPI sh s) = rx_stores (rx (buffer s)) (rx_bytes s) (rxfifo (spi s)) (mem s)"
proof (induction "rxfifo (spi s)" arbitrary: s)
  case Nil
  then show ?case by (simp add: ISR_SPI_empty [OF Nil.hyps [symmetric]] Nil.hyps [symmetric])
next
  case (Cons b bs)
  define u where "u = s\<lparr>spi := (spi s)\<lparr>rxfifo := bs\<rparr>,
       mem := (if rx_bytes s <s sp_size (rx (buffer s))
               then (mem s)(sp_data (rx (buffer s)) + rx_bytes s := b) else mem s),
       rx_bytes := rx_bytes s + 1\<rparr>"
  define t where "t = ISR_PrepareTx u"
  have fr: "mode t = kTransfer" "current_address t = current_address s"
    "buffer t = buffer s" "rx_bytes t = rx_bytes s + 1"
    "mem t = (if rx_bytes s <s sp_size (rx (buffer s))
               then (mem s)(sp_data (rx (buffer s)) + rx_bytes s := b) else mem s)"
    "calls t = calls s" "status_led t = status_led s"
    "rxfifo (spi t) = bs" "txdepth (spi t) = txdepth (spi s)"
    using ISR_PrepareTx_frame [of u] Cons.prems unfolding t_def by (simp_all add: u_def)
  have eq: "ISR_SPI sh s = ISR_SPI sh t"
    using Cons.hyps(2) [symmetric] Cons.prems
    by (simp add: ISR_SPI_Cons body_transfer t_def u_def)
  have IH: "mode (ISR_SPI sh t) = kTransfer \<and> current_address (ISR_SPI sh t) = current_address t \<and>
   buffer (ISR_SPI sh t) = buffer t \<and> calls (ISR_SPI sh t) = calls t \<and>
   status_led (ISR_SPI sh t) = status_led t \<and>
   txdepth (spi (ISR_SPI sh t)) = txdepth (spi t) \<and>
   rxfifo (spi (ISR_SPI sh t)) = [] \<and>
   rx_bytes (ISR_SPI sh t) = rx_bytes t + of_nat (length (rxfifo (spi t))) \<and>
   mem (ISR_SPI sh t) = rx_stores (rx (buffer t)) (rx_bytes t) (rxfifo (spi t)) (mem t)"
    by (rule Cons.hyps(1)) (simp_all add: fr)
  have len: "rx_bytes s + 1 + of_nat (length bs) = rx_bytes s + of_nat (length (b # bs))"
    by simp
  show ?case
    unfolding eq Cons.hyps(2) [symmetric] using IH len by (simp add: fr)
qed

lemma rx_stores_append:
  "rx_stores sp r (xs @ ys) m = rx_stores sp (r + of_nat (length xs)) ys (rx_stores sp r xs m)"
  by (induction xs arbitrary: r m) (simp_all add: ac_simps)

lemma ISR_SPI_address:
  assumes "mode s = kWaitingAddress" and "rxfifo (spi s) = a # bs"
  shows "mode (ISR_SPI sh s) = kTransfer \<and> current_address (ISR_SPI sh s) = ucast a \<and>
   buffer (ISR_SPI sh s) = fst (sh (ucast a) (mem s)) \<and>
   calls (ISR_SPI sh s) = calls s @ [StartCall (ucast a)] \<and>
   status_led (ISR_SPI sh s) = status_led s \<and>
   txdepth (spi (ISR_SPI sh s)) = txdepth (spi s) \<and>
   rxfifo (spi (ISR_SPI sh s)) = [] \<and>
   rx_bytes (ISR_SPI sh s) = rx_bytes s + of_nat (length bs) \<and>
   mem (ISR_SPI sh s) =
     rx_stores (rx (fst (sh (ucast a) (mem s)))) (rx_bytes s) bs (snd (sh (ucast a) (mem s)))"
proof -
  define u where "u = s\<lparr>spi := (spi s)\<lparr>rxfifo := bs\<rparr>,
        current_address := ucast a,
        buffer := fst (sh (ucast a) (mem s)),
        mem := snd (sh (ucast a) (mem s)),
        calls := calls s @ [StartCall (ucast a)]\<rparr>"
  define t where "t = (ISR_PrepareTx u)\<lparr>mode := kTransfer\<rparr>"
  have fr: "mode t = kTransfer" "current_address t = ucast a"
    "buffer t = fst (sh (ucast a) (mem s))" "rx_bytes t = rx_bytes s"
    "mem t = snd (sh (ucast a) (mem s))"
    "calls t = calls s @ [StartCall (ucast a)]" "status_led t = status_led s"
    "rxfifo (spi t) = bs" "txdepth (spi t) = txdepth (spi s)"
    using ISR_PrepareTx_frame [of u] unfolding t_def by (simp_all add: u_def)
  have eq: "ISR_SPI sh s = ISR_SPI sh t"
    using assms by (simp add: ISR_SPI_Cons body_address t_def u_def)
  show ?thesis
    unfolding eq using ISR_SPI_transfer [of t sh] by (simp add: fr)
qed

subsection \<open>Sequences of events between two edges of the select line\<close>

lemma run_append: "run sh eh (xs @ ys) s = run sh eh ys (run sh eh xs s)"
  by (induction xs arbitrary: s) simp_all

lemma run_transfer:
  assumes "mode s = kTransfer" and "\<forall>e\<in>set evs. \<not> select_edge e"
  shows "mode (run sh eh evs s) = kTransfer \<and>
    current_address (run sh eh evs s) = current_address s \<and>
    buffer (run sh eh evs s) = buffer s \<and>
    calls (run sh eh evs s) = calls s \<and>
    txdepth (spi (run sh eh evs s)) = txdepth (spi s) \<and>
    (\<exists>cs. rxfifo (spi s) @ clocked evs = cs @ rxfifo (spi (run sh eh evs s)) \<and>
       rx_bytes (run sh eh evs s) = rx_bytes s + of_nat (length cs) \<and>
       mem (run sh eh evs s) = rx_stores (rx (buffer s)) (rx_bytes s) cs (mem s))"
  using assms
proof (induction evs arbitrary: s)
  case Nil
  then show ?case by (auto intro: exI [of _ "[]"])
next
  case (Cons e es)
  define t where "t = step sh eh e s"
  have ne: "\<not> select_edge e" and nes: "\<forall>e\<in>set es. \<not> select_edge e"
    using Cons.prems(2) by simp_all
  have st: "mode t = kTransfer \<and> current_address t = current_address s \<and>
    buffer t = buffer s \<and> calls t = calls s \<and> txdepth (spi t) = txdepth (spi s) \<and>
    (\<exists>ds. rxfifo (spi s) @ clocked [e] = ds @ rxfifo (spi t) \<and>
       rx_bytes t = rx_bytes s + of_nat (length ds) \<and>
       mem t = rx_stores (rx (buffer s)) (rx_bytes s) ds (mem s))"
  proof (cases e)
    case SpiIrq
    then show ?thesis
      using ISR_SPI_transfer [OF Cons.prems(1), of sh] by (simp add: t_def)
  next
    case (Clock b)
    then show ?thesis
      using Cons.prems(1) by (auto simp: t_def shift_byte_def intro: exI [of _ "[]"])
  next
    case PollMs
    then show ?thesis
      using Cons.prems(1) by (auto simp: t_def PollMillisecond_def intro: exI [of _ "[]"])
  qed (use ne in simp_all)
  then obtain ds where ds: "rxfifo (spi s) @ clocked [e] = ds @ rxfifo (spi t)"
      "rx_bytes t = rx_bytes s + of_nat (length ds)"
      "mem t = rx_stores (rx (buffer s)) (rx_bytes s) ds (mem s)"
    and tt: "mode t = kTransfer" "current_address t = current_address s"
      "buffer t = buffer s" "calls t = calls s" "txdepth (spi t) = txdepth (spi s)"
    by blast
  from Cons.IH [OF tt(1) nes]
  obtain cs where cs: "rxfifo (spi t) @ clocked es = cs @ rxfifo (spi (run sh eh es t))"
      "rx_bytes (run sh eh es t) = rx_bytes t + of_nat (length cs)"
      "mem (run sh eh es t) = rx_stores (rx (buffer t)) (rx_bytes t) cs (mem t)"
    and rr: "mode (run sh eh es t) = kTransfer"
      "current_address (run sh eh es t) = current_address t"
      "buffer (run sh eh es t) = buffer t" "calls (run sh eh es t) = calls t"
      "txdepth (spi (run sh eh es t)) = txdepth (spi t)"
    by blast
  have cl: "clocked (e # es) = clocked [e] @ clocked es"
    by (cases e) simp_all
  have "rxfifo (spi s) @ clocked (e # es) = (ds @ cs) @ rxfifo (spi (run sh eh es t))"
    using ds(1) cs(1) unfolding cl by (metis append.assoc)
  moreover have "rx_bytes (run sh eh es t) = rx_bytes s + of_nat (length (ds @ cs))"
    using ds(2) cs(2) by simp
  moreover have "mem (run sh eh es t) = rx_stores (rx (buffer s)) (rx_bytes s) (ds @ cs) (mem s)"
    using ds(2,3) cs(3) tt(3) by (simp add: rx_stores_append)
  ultimately have "\<exists>cs. rxfifo (spi s) @ clocked (e # es) = cs @ rxfifo (spi (run sh eh es t)) \<and>
       rx_bytes (run sh eh es t) = rx_bytes s + of_nat (length cs) \<and>
       mem (run sh eh es t) = rx_stores (rx (buffer s)) (rx_bytes s) cs (mem s)"
    by blast
  then show ?case
    using rr tt by (simp add: t_def)
qed

lemma clocked_Cons: "clocked (e # es) = clocked [e] @ clocked es"
  by (cases e) simp_all

lemma run_waiting:
  assumes "mode s = kWaitingAddress" and "\<forall>e\<in>set evs. \<not> select_edge e"
  shows "still_waiting s (rxfifo (spi s) @ clocked evs) (run sh eh evs s) \<or>
         addressed sh s (rxfifo (spi s) @ clocked evs) (run sh eh evs s)"
  using assms
proof (induction evs arbitrary: s)
  case Nil
  then show ?case by (simp add: still_waiting_def)
next
  case (Cons e es)
  have ne: "\<not> select_edge e" and nes: "\<forall>e\<in>set es. \<not> select_edge e"
    using Cons.prems(2) by simp_all
  define t where "t = step sh eh e s"
  have run: "run sh eh (e # es) s = run sh eh es t" by (simp add: t_def)
  consider (quiet) "still_waiting s (rxfifo (spi s) @ clocked [e]) t"
    | (addr) a bs where "e = SpiIrq" "rxfifo (spi s) = a # bs"
  proof (cases e)
    case SpiIrq
    show ?thesis
    proof (cases "rxfifo (spi s)")
      case Nil
      then have "t = s" by (simp add: t_def SpiIrq ISR_SPI_empty)
      then show ?thesis using Nil SpiIrq Cons.prems(1) quiet by (simp add: still_waiting_def)
    next
      case (Cons a bs)
      then show ?thesis using SpiIrq addr by blast
    qed
  next
    case (Clock b)
    then show ?thesis
      using Cons.prems(1) quiet by (simp add: t_def still_waiting_def shift_byte_def)
  next
    case PollMs
    then show ?thesis
      using Cons.prems(1) quiet by (simp add: t_def still_waiting_def PollMillisecond_def)
  qed (use ne in simp_all)
  then show ?case
  proof cases
    case quiet
    then have mt: "mode t = kWaitingAddress"
      and rt: "rxfifo (spi t) = rxfifo (spi s) @ clocked [e]"
      by (simp_all add: still_waiting_def)
    have inp: "rxfifo (spi t) @ clocked es = rxfifo (spi s) @ clocked (e # es)"
      unfolding rt by (subst (2) clocked_Cons) simp
    from Cons.IH [OF mt nes] show ?thesis
      unfolding run inp using quiet
      by (auto simp: still_waiting_def addressed_def)
  next
    case addr
    have at: "mode t = kTransfer" "current_address t = ucast a"
      "buffer t = fst (sh (ucast a) (mem s))"
      "calls t = calls s @ [StartCall (ucast a)]"
      "txdepth (spi t) = txdepth (spi s)"
      "rxfifo (spi t) = []"
      "rx_bytes t = rx_bytes s + of_nat (length bs)"
      "mem t = rx_stores (rx (fst (sh (ucast a) (mem s)))) (rx_bytes s) bs (snd (sh (ucast a) (mem s)))"
      using ISR_SPI_address [OF Cons.prems(1) addr(2), of sh] by (simp_all add: t_def addr(1))
    from run_transfer [OF at(1) nes, of sh eh]
    obtain cs where cs: "clocked es = cs @ rxfifo (spi (run sh eh es t))"
      "rx_bytes (run sh eh es t) = rx_bytes t + of_nat (length cs)"
      "mem (run sh eh es t) = rx_stores (rx (buffer t)) (rx_bytes t) cs (mem t)"
      and rr: "mode (run sh eh es t) = kTransfer"
      "current_address (run sh eh es t) = current_address t"
      "buffer (run sh eh es t) = buffer t" "calls (run sh eh es t) = calls t"
      "txdepth (spi (run sh eh es t)) = txdepth (spi t)"
      unfolding at(6) by auto
    have "rxfifo (spi s) @ clocked (e # es) = a # (bs @ cs) @ rxfifo (spi (run sh eh es t))"
      using cs(1) by (simp add: addr)
    moreover have "rx_bytes (run sh eh es t) = rx_bytes s + of_nat (length (bs @ cs))"
      using cs(2) at(7) by simp
    moreover have "mem (run sh eh es t) =
        rx_stores (rx (fst (sh (ucast a) (mem s)))) (rx_bytes s) (bs @ cs) (snd (sh (ucast a) (mem s)))"
      using cs(3) at by (simp add: rx_stores_append)
    ultimately have "addressed sh s (rxfifo (spi s) @ clocked (e # es)) (run sh eh es t)"
      unfolding addressed_def using rr at
      by (intro exI [of _ a] exI [of _ "bs @ cs"]) simp
    then show ?thesis unfolding run by simp
  qed
qed

subsection \<open>Evaluation on a state written out\<close>

text \<open>The handlers on a state written out field by field, for evaluation.\<close>

lemma PrepareTx_rec:
  "ISR_PrepareTx \<lparr>spi_instance = i, spi = \<lparr>rxfifo = rf, txfifo = tf, txdepth = d, dr_log = l\<rparr>,
      status_led = led, mode = md, current_address = a, buffer = B, tx_bytes = t,
      rx_bytes = r, mem = m, calls = c\<rparr> =
   \<lparr>spi_instance = i, spi = \<lparr>rxfifo = rf, txfifo = tf @ tx_fills B m t (d - length tf), txdepth = d,
            dr_log = l @ tx_fills B m t (d - length tf)\<rparr>,
      status_led = led, mode = md, current_address = a, buffer = B,
      tx_bytes = t + of_nat (d - length tf),
      rx_bytes = r, mem = m, calls = c\<rparr>"
  by (subst ISR_PrepareTx_eq) (simp add: free_slots_def)

lemma ISR_SPI_rec_Nil:
  "ISR_SPI sh \<lparr>spi_instance = i, spi = \<lparr>rxfifo = [], txfifo = tf, txdepth = d, dr_log = l\<rparr>,
      status_led = led, mode = md, current_address = a, buffer = B, tx_bytes = t,
      rx_bytes = r, mem = m, calls = c\<rparr> =
   \<lparr>spi_instance = i, spi = \<lparr>rxfifo = [], txfifo = tf, txdepth = d, dr_log = l\<rparr>,
      status_led = led, mode = md, current_address = a, buffer = B, tx_bytes = t,
      rx_bytes = r, mem = m, calls = c\<rparr>"
  by (simp add: ISR_SPI_empty)

lemma ISR_SPI_rec_inactive:
  "ISR_SPI sh \<lparr>spi_instance = i, spi = \<lparr>rxfifo = b # bs, txfifo = tf, txdepth = d, dr_log = l\<rparr>,
      status_led = led, mode = kInactive, current_address = a, buffer = B, tx_bytes = t,
      rx_bytes = r, mem = m, calls = c\<rparr> =
   \<lparr>spi_instance = i, spi = \<lparr>rxfifo = [], txfifo = tf, txdepth = d, dr_log = l\<rparr>,
      status_led = led, mode = kInactive, current_address = a, buffer = B, tx_bytes = t,
      rx_bytes = r, mem = m, calls = c\<rparr>"
  by (simp add: ISR_SPI_inactive)

lemma ISR_SPI_rec_transfer:
  "ISR_SPI sh \<lparr>spi_instance = i, spi = \<lparr>rxfifo = b # bs, txfifo = tf, txdepth = d, dr_log = l\<rparr>,
      status_led = led, mode = kTransfer, current_address = a, buffer = B, tx_bytes = t,
      rx_bytes = r, mem = m, calls = c\<rparr> =
   ISR_SPI sh (ISR_PrepareTx \<lparr>spi_instance = i, spi = \<lparr>rxfifo = bs, txfifo = tf, txdepth = d, dr_log = l\<rparr>,
      status_led = led, mode = kTransfer, current_address = a, buffer = B, tx_bytes = t,
      rx_bytes = r + 1,
      mem = (if r <s sp_size (rx B) then m(sp_data (rx B) + r := b) else m), calls = c\<rparr>)"
  by (subst ISR_SPI_Cons [where b = b and bs = bs]) (simp_all add: body_transfer)

lemma ISR_SPI_rec_address:
  "ISR_SPI sh \<lparr>spi_instance = i, spi = \<lparr>rxfifo = b # bs, txfifo = tf, txdepth = d, dr_log = l\<rparr>,
      status_led = led, mode = kWaitingAddress, current_address = a, buffer = B, tx_bytes = t,
      rx_bytes = r, mem = m, calls = c\<rparr> =
   ISR_SPI sh ((ISR_PrepareTx \<lparr>spi_instance = i, spi = \<lparr>rxfifo = bs, txfifo = tf, txdepth = d, dr_log = l\<rparr>,
      status_led = led, mode = kWaitingAddress, current_address = ucast b,
      buffer = fst (sh (ucast b) m), tx_bytes = t,
      rx_bytes = r, mem = snd (sh (ucast b) m), calls = c @ [StartCall (ucast b)]\<rparr>)
      \<lparr>mode := kTransfer\<rparr>)"
  by (subst ISR_SPI_Cons [where b = b and bs = bs]) (simp_all add: body_address)

lemma Fall_rec:
  "ISR_HandleNssFall \<lparr>spi_instance = i, spi = \<lparr>rxfifo = rf, txfifo = tf, txdepth = d, dr_log = l\<rparr>,
      status_led = led, mode = md, current_address = a, buffer = B, tx_bytes = t,
      rx_bytes = r, mem = m, calls = c\<rparr> =
   \<lparr>spi_instance = i, spi = \<lparr>rxfifo = tl rf, txfifo = tf, txdepth = d, dr_log = l\<rparr>,
      status_led = 0, mode = kWaitingAddress, current_address = a, buffer = B, tx_bytes = t,
      rx_bytes = r, mem = store16 m (case rf of [] \<Rightarrow> 0 | b # bs \<Rightarrow> ucast b) 0, calls = c\<rparr>"
  by (cases rf) (simp_all add: ISR_HandleNssFall_def ReadRegister_def)

lemma Rise_rec:
  "ISR_HandleNssRise eh \<lparr>spi_instance = i, spi = \<lparr>rxfifo = rf, txfifo = tf, txdepth = d, dr_log = l\<rparr>,
      status_led = led, mode = md, current_address = a, buffer = B, tx_bytes = t,
      rx_bytes = r, mem = m, calls = c\<rparr> =
   \<lparr>spi_instance = i,
      spi = \<lparr>rxfifo = (if reset_pulsed i = i then [] else rf),
             txfifo = (if reset_pulsed i = i then [] else tf), txdepth = d, dr_log = l\<rparr>,
      status_led = led, mode = kInactive, current_address = a, buffer = B, tx_bytes = 0,
      rx_bytes = 0, mem = (if md = kTransfer then eh a r m else m),
      calls = (if md = kTransfer then c @ [EndCall a (sint r)] else c)\<rparr>"
  by (simp add: ISR_HandleNssRise_def Init_def EnableSPI_def)

lemmas eval_simps = PrepareTx_rec ISR_SPI_rec_Nil ISR_SPI_rec_inactive ISR_SPI_rec_transfer
  ISR_SPI_rec_address Fall_rec Rise_rec PollMillisecond_def shift_byte_def
  tx_fills_def tx_padded_def initial_def

subsection \<open>The select edges\<close>

lemma run_snoc: "run sh eh (evs @ [e]) s = step sh eh e (run sh eh evs s)"
  by (simp add: run_append)

lemma Fall_fields:
  "mode (ISR_HandleNssFall s) = kWaitingAddress \<and>
   calls (ISR_HandleNssFall s) = calls s \<and>
   tx_bytes (ISR_HandleNssFall s) = tx_bytes s \<and>
   rx_bytes (ISR_HandleNssFall s) = rx_bytes s \<and>
   current_address (ISR_HandleNssFall s) = current_address s \<and>
   buffer (ISR_HandleNssFall s) = buffer s \<and>
   status_led (ISR_HandleNssFall s) = 0 \<and>
   rxfifo (spi (ISR_HandleNssFall s)) = tl (rxfifo (spi s)) \<and>
   txfifo (spi (ISR_HandleNssFall s)) = txfifo (spi s) \<and>
   dr_log (spi (ISR_HandleNssFall s)) = dr_log (spi s) \<and>
   txdepth (spi (ISR_HandleNssFall s)) = txdepth (spi s) \<and>
   mem (ISR_HandleNssFall s) =
     store16 (mem s) (case rxfifo (spi s) of [] \<Rightarrow> 0 | b # bs \<Rightarrow> ucast b) 0"
  by (cases "rxfifo (spi s)") (simp_all add: ISR_HandleNssFall_def ReadRegister_def)

lemma Rise_fields:
  "mode (ISR_HandleNssRise eh s) = kInactive \<and>
   calls (ISR_HandleNssRise eh s) =
     calls s @ (if mode s = kTransfer then [EndCall (current_address s) (sint (rx_bytes s))] else []) \<and>
   mem (ISR_HandleNssRise eh s) =
     (if mode s = kTransfer then eh (current_address s) (rx_bytes s) (mem s) else mem s) \<and>
   tx_bytes (ISR_HandleNssRise eh s) = 0 \<and>
   rx_bytes (ISR_HandleNssRise eh s) = 0 \<and>
   current_address (ISR_HandleNssRise eh s) = current_address s \<and>
   buffer (ISR_HandleNssRise eh s) = buffer s \<and>
   status_led (ISR_HandleNssRise eh s) = status_led s \<and>
   spi_instance (ISR_HandleNssRise eh s) = spi_instance s \<and>
   rxfifo (spi (ISR_HandleNssRise eh s)) =
     (if reset_pulsed (spi_instance s) = spi_instance s then [] else rxfifo (spi s)) \<and>
   txfifo (spi (ISR_HandleNssRise eh s)) =
     (if reset_pulsed (spi_instance s) = spi_instance s then [] else txfifo (spi s)) \<and>
   dr_log (spi (ISR_HandleNssRise eh s)) = dr_log (spi s) \<and>
   txdepth (spi (ISR_HandleNssRise eh s)) = txdepth (spi s)"
  by (simp add: ISR_HandleNssRise_def Init_def EnableSPI_def Let_def)

lemma sint_of_nat_small: "n < 2 ^ 31 \<Longrightarrow> sint (of_nat n :: 32 word) = int n"
  by (simp add: signed_of_nat signed_take_bit_int_eq_self)

lemma merge3:
  "merge a (merge b (merge c d)) = (if a = b \<and> b = c \<and> c = d then d else 0)"
  by (auto simp: merge_def)

subsection \<open>Counting end calls\<close>

lemma ISR_SPI_pending_end: "pending_end (ISR_SPI sh s) = pending_end s"
proof (cases "mode s")
  case kInactive
  then show ?thesis by (simp add: ISR_SPI_inactive pending_end_def)
next
  case kWaitingAddress
  show ?thesis
  proof (cases "rxfifo (spi s)")
    case Nil
    then show ?thesis by (simp add: ISR_SPI_empty)
  next
    case (Cons a bs)
    from ISR_SPI_address [OF kWaitingAddress Cons, of sh] show ?thesis
      by (simp add: pending_end_def kWaitingAddress)
  qed
next
  case kTransfer
  from ISR_SPI_transfer [OF kTransfer, of sh] show ?thesis
    by (simp add: pending_end_def kTransfer)
qed

lemma step_pending_end:
  "pending_end (step sh eh e s) \<le> pending_end s + (if e = NssFall then 1 else 0)"
proof (cases e)
  case NssFall
  then show ?thesis using Fall_fields [of s] by (simp add: pending_end_def)
next
  case NssRise
  then show ?thesis using Rise_fields [of eh s] by (simp add: pending_end_def)
next
  case SpiIrq
  then show ?thesis by (simp add: ISR_SPI_pending_end)
next
  case (Clock b)
  then show ?thesis by (simp add: pending_end_def)
next
  case PollMs
  then show ?thesis by (simp add: pending_end_def PollMillisecond_def)
qed

lemma run_pending_end:
  "pending_end (run sh eh evs s) \<le> pending_end s + length (filter (\<lambda>e. e = NssFall) evs)"
proof (induction evs arbitrary: s)
  case Nil
  show ?case by simp
next
  case (Cons e es)
  have "pending_end (run sh eh es (step sh eh e s))
      \<le> pending_end (step sh eh e s) + length (filter (\<lambda>e. e = NssFall) es)"
    by (rule Cons.IH)
  also have "pending_end (step sh eh e s) \<le> pending_end s + (if e = NssFall then 1 else 0)"
    by (rule step_pending_end)
  finally show ?case by (cases "e = NssFall") simp_all
qed

lemma run_cycle:
  assumes "\<forall>e\<in>set evs. \<not> select_edge e"
  shows "still_waiting (ISR_HandleNssFall s) (tl (rxfifo (spi s)) @ clocked evs)
           (run sh eh (NssFall # evs) s) \<or>
         addressed sh (ISR_HandleNssFall s) (tl (rxfifo (spi s)) @ clocked evs)
           (run sh eh (NssFall # evs) s)"
  using run_waiting [of "ISR_HandleNssFall s" evs sh eh] assms Fall_fields [of s] by simp

subsection \<open>One select cycle\<close>

lemma transaction_state:
  assumes "rxfifo (spi s) = []" and "\<forall>e\<in>set evs. \<not> select_edge e"
    and "clocked evs = a # ds" and "rxfifo (spi (run sh eh (NssFall # evs) s)) = []"
  shows "mode (run sh eh (NssFall # evs) s) = kTransfer \<and>
    calls (run sh eh (NssFall # evs) s) = calls s @ [StartCall (ucast a)] \<and>
    current_address (run sh eh (NssFall # evs) s) = ucast a \<and>
    buffer (run sh eh (NssFall # evs) s) = fst (sh (ucast a) (mem (ISR_HandleNssFall s))) \<and>
    rx_bytes (run sh eh (NssFall # evs) s) = rx_bytes s + of_nat (length ds) \<and>
    mem (run sh eh (NssFall # evs) s) =
      rx_stores (rx (fst (sh (ucast a) (mem (ISR_HandleNssFall s))))) (rx_bytes s) ds
        (snd (sh (ucast a) (mem (ISR_HandleNssFall s))))"
proof -
  let ?s' = "run sh eh (NssFall # evs) s"
  have F: "calls (ISR_HandleNssFall s) = calls s" "rx_bytes (ISR_HandleNssFall s) = rx_bytes s"
    using Fall_fields [of s] assms(1) by simp_all
  from run_cycle [OF assms(2), of s sh eh]
  have "still_waiting (ISR_HandleNssFall s) (a # ds) ?s' \<or>
        addressed sh (ISR_HandleNssFall s) (a # ds) ?s'"
    by (simp add: assms(1,3))
  moreover have "\<not> still_waiting (ISR_HandleNssFall s) (a # ds) ?s'"
    using assms(4) by (simp add: still_waiting_def)
  ultimately have "addressed sh (ISR_HandleNssFall s) (a # ds) ?s'" by blast
  then show ?thesis
    unfolding addressed_def F using assms(4) by auto
qed

lemmas demo_simps = eval_simps demo_start_def demo_end_def demo_buffer_def

subsection \<open>The transmit side of a select cycle\<close>






















subsection \<open>The counters between select cycles\<close>

lemma ISR_SPI_mode_counts:
  "mode (ISR_SPI sh s) = kInactive \<Longrightarrow>
   mode s = kInactive \<and> tx_bytes (ISR_SPI sh s) = tx_bytes s \<and> rx_bytes (ISR_SPI sh s) = rx_bytes s"
proof (cases "mode s")
  case kInactive
  then show ?thesis by (simp add: ISR_SPI_inactive)
next
  case kWaitingAddress
  assume m: "mode (ISR_SPI sh s) = kInactive"
  show ?thesis
  proof (cases "rxfifo (spi s)")
    case Nil
    then show ?thesis using m kWaitingAddress by (simp add: ISR_SPI_empty)
  next
    case (Cons a bs)
    from ISR_SPI_address [OF kWaitingAddress Cons, of sh] m show ?thesis by simp
  qed
next
  case kTransfer
  assume "mode (ISR_SPI sh s) = kInactive"
  with ISR_SPI_transfer [OF kTransfer, of sh] show ?thesis by simp
qed

lemma step_inactive_zero:
  assumes "mode s = kInactive \<longrightarrow> tx_bytes s = 0 \<and> rx_bytes s = 0"
  shows "mode (step sh eh e s) = kInactive \<longrightarrow>
         tx_bytes (step sh eh e s) = 0 \<and> rx_bytes (step sh eh e s) = 0"
proof (cases e)
  case NssFall
  then show ?thesis using Fall_fields [of s] by simp
next
  case NssRise
  then show ?thesis using Rise_fields [of eh s] by simp
next
  case SpiIrq
  then show ?thesis using ISR_SPI_mode_counts [of sh s] assms by auto
next
  case (Clock b)
  then show ?thesis using assms by simp
next
  case PollMs
  then show ?thesis using assms by (simp add: PollMillisecond_def)
qed

lemma run_inactive_zero:
  assumes "mode s = kInactive \<longrightarrow> tx_bytes s = 0 \<and> rx_bytes s = 0"
  shows "mode (run sh eh evs s) = kInactive \<longrightarrow>
         tx_bytes (run sh eh evs s) = 0 \<and> rx_bytes (run sh eh evs s) = 0"
  using assms
proof (induction evs arbitrary: s)
  case Nil
  then show ?case by simp
next
  case (Cons e es)
  show ?case
    using Cons.IH [OF step_inactive_zero [OF Cons.prems, of sh eh e]] by simp
qed

subsection \<open>What a select cycle inherits\<close>

lemma stale_only_observable: "stale_only s t \<Longrightarrow> observable t = observable s"
proof -
  assume "stale_only s t"
  then have "t = s\<lparr>buffer := buffer t, current_address := current_address t\<rparr>"
    by (simp add: stale_only_def)
  then have "observable t = observable (s\<lparr>buffer := buffer t, current_address := current_address t\<rparr>)"
    by simp
  then show ?thesis by (simp add: observable_def)
qed

lemma ISR_SPI_stale:
  assumes "mode s \<noteq> kTransfer"
  shows "ISR_SPI sh (s\<lparr>buffer := B, current_address := A\<rparr>) = ISR_SPI sh s \<or>
         ISR_SPI sh (s\<lparr>buffer := B, current_address := A\<rparr>) =
           (ISR_SPI sh s)\<lparr>buffer := B, current_address := A\<rparr> \<and> mode (ISR_SPI sh s) \<noteq> kTransfer"
proof (cases "mode s")
  case kInactive
  then show ?thesis by (simp add: ISR_SPI_inactive)
next
  case kWaitingAddress
  show ?thesis
  proof (cases "rxfifo (spi s)")
    case Nil
    then show ?thesis using kWaitingAddress by (simp add: ISR_SPI_empty)
  next
    case (Cons a bs)
    have "ISR_SPI sh (s\<lparr>buffer := B, current_address := A\<rparr>) =
        ISR_SPI sh (ISR_SPI_body sh (s\<lparr>buffer := B, current_address := A\<rparr>))"
      by (rule ISR_SPI_Cons [where b = a and bs = bs]) (simp add: Cons)
    also have "ISR_SPI_body sh (s\<lparr>buffer := B, current_address := A\<rparr>) = ISR_SPI_body sh s"
      by (subst (1 2) body_address [where b = a and bs = bs])
         (simp_all add: kWaitingAddress Cons)
    also have "ISR_SPI sh (ISR_SPI_body sh s) = ISR_SPI sh s"
      by (rule ISR_SPI_Cons [symmetric]) (rule Cons)
    finally show ?thesis by simp
  qed
next
  case kTransfer
  with assms show ?thesis by simp
qed

lemma step_stale:
  assumes "stale_only s t"
  shows "stale_only (step sh eh e s) (step sh eh e t) \<or> step sh eh e t = step sh eh e s"
proof -
  from assms have m: "mode s \<noteq> kTransfer"
    and t: "t = s\<lparr>buffer := buffer t, current_address := current_address t\<rparr>"
    by (simp_all add: stale_only_def)
  define B where "B = buffer t"
  define A where "A = current_address t"
  have t': "t = s\<lparr>buffer := B, current_address := A\<rparr>"
    using t by (simp add: B_def A_def)
  show ?thesis
  proof (cases e)
    case NssFall
    have "ISR_HandleNssFall (s\<lparr>buffer := B, current_address := A\<rparr>) =
        (ISR_HandleNssFall s)\<lparr>buffer := B, current_address := A\<rparr>"
      by (cases "rxfifo (spi s)") (simp_all add: ISR_HandleNssFall_def ReadRegister_def)
    then show ?thesis
      using Fall_fields [of s] by (simp add: NssFall t' stale_only_def)
  next
    case NssRise
    have "ISR_HandleNssRise eh (s\<lparr>buffer := B, current_address := A\<rparr>) =
        (ISR_HandleNssRise eh s)\<lparr>buffer := B, current_address := A\<rparr>"
      using m by (simp add: ISR_HandleNssRise_def Let_def)
    then show ?thesis
      using Rise_fields [of eh s] by (simp add: NssRise t' stale_only_def)
  next
    case SpiIrq
    from ISR_SPI_stale [OF m, where sh = sh and B = B and A = A] show ?thesis
      by (auto simp: SpiIrq t' stale_only_def)
  next
    case (Clock b)
    then show ?thesis using m by (simp add: t' stale_only_def)
  next
    case PollMs
    then show ?thesis using m by (simp add: t' stale_only_def PollMillisecond_def)
  qed
qed

lemma run_stale:
  assumes "stale_only s t \<or> t = s"
  shows "observable (run sh eh evs t) = observable (run sh eh evs s)"
  using assms
proof (induction evs arbitrary: s t)
  case Nil
  then show ?case by (auto dest: stale_only_observable)
next
  case (Cons e es)
  have "stale_only (step sh eh e s) (step sh eh e t) \<or> step sh eh e t = step sh eh e s"
    using Cons.prems step_stale [of s t sh eh e] by auto
  from Cons.IH [OF this] show ?case by simp
qed

text \<open>
  On every instance the counters the rising edge found show only in the end call of
  the cycle that ends, and the buffer pair and the address it leaves behind have no
  influence on what follows. The queues of the peripheral are empty after the rising
  edge where \<open>EnableSPI\<close> pulses the reset of the object's own instance.
\<close>

lemma cycles_independent:
  "(ISR_HandleNssRise eh (s\<lparr>tx_bytes := T, rx_bytes := R\<rparr>))\<lparr>mem := m', calls := c\<rparr> =
     (ISR_HandleNssRise eh s)\<lparr>mem := m', calls := c\<rparr> \<and>
   observable (run sh eh evs ((ISR_HandleNssRise eh s)\<lparr>buffer := B, current_address := A\<rparr>)) =
     observable (run sh eh evs (ISR_HandleNssRise eh s))"
proof -
  have cnt: "(ISR_HandleNssRise eh (s\<lparr>tx_bytes := T, rx_bytes := R\<rparr>))\<lparr>mem := m', calls := c\<rparr> =
     (ISR_HandleNssRise eh s)\<lparr>mem := m', calls := c\<rparr>"
    by (simp add: ISR_HandleNssRise_def Let_def)
  have "stale_only (ISR_HandleNssRise eh s)
      ((ISR_HandleNssRise eh s)\<lparr>buffer := B, current_address := A\<rparr>)"
    using Rise_fields [of eh s] by (simp add: stale_only_def)
  then have "observable (run sh eh evs ((ISR_HandleNssRise eh s)\<lparr>buffer := B, current_address := A\<rparr>)) =
     observable (run sh eh evs (ISR_HandleNssRise eh s))"
    by (intro run_stale) simp
  with cnt show ?thesis by simp
qed

lemma queues_after_rise:
  "reset_pulsed (spi_instance s) = spi_instance s \<Longrightarrow>
   rxfifo (spi (ISR_HandleNssRise eh s)) = [] \<and> txfifo (spi (ISR_HandleNssRise eh s)) = []"
  using Rise_fields [of eh s] by simp

subsection \<open>The scenarios of the specification\<close>

text \<open>
  Address \<open>0x10\<close> and four data bytes: one start call, the bytes \<open>AA BB CC 00\<close> written
  for the four data bytes, the four bytes stored and the fifth place of the span
  untouched, one end call with the count 4. Six data bytes: the span holds the first
  five, the count is 6. Select asserted and released with no byte: no call. With a
  transmit queue of three places the same bytes are written, three of them ahead.
\<close>

lemma scenario_four_bytes:
  "calls (run demo_start demo_end
     [NssFall, Clock 0x10, SpiIrq, Clock 1, SpiIrq, Clock 2, SpiIrq, Clock 3, SpiIrq,
      Clock 4, SpiIrq, NssRise] (initial SPI1 1 demo_mem)) = [StartCall 0x10, EndCall 0x10 4] \<and>
   take 4 (dr_log (spi (run demo_start demo_end
     [NssFall, Clock 0x10, SpiIrq, Clock 1, SpiIrq, Clock 2, SpiIrq, Clock 3, SpiIrq,
      Clock 4, SpiIrq, NssRise] (initial SPI1 1 demo_mem)))) = [0xAA, 0xBB, 0xCC, 0] \<and>
   map (mem (run demo_start demo_end
     [NssFall, Clock 0x10, SpiIrq, Clock 1, SpiIrq, Clock 2, SpiIrq, Clock 3, SpiIrq,
      Clock 4, SpiIrq, NssRise] (initial SPI1 1 demo_mem))) [0x200, 0x201, 0x202, 0x203, 0x204]
     = [1, 2, 3, 4, demo_mem 0x204]"
  by (simp add: demo_simps demo_mem_def store16_def word_sless_alt)

lemma scenario_six_bytes:
  "calls (run demo_start demo_end
     [NssFall, Clock 0x10, SpiIrq, Clock 1, SpiIrq, Clock 2, SpiIrq, Clock 3, SpiIrq,
      Clock 4, SpiIrq, Clock 5, SpiIrq, Clock 6, SpiIrq, NssRise] (initial SPI1 1 demo_mem))
     = [StartCall 0x10, EndCall 0x10 6] \<and>
   map (mem (run demo_start demo_end
     [NssFall, Clock 0x10, SpiIrq, Clock 1, SpiIrq, Clock 2, SpiIrq, Clock 3, SpiIrq,
      Clock 4, SpiIrq, Clock 5, SpiIrq, Clock 6, SpiIrq, NssRise] (initial SPI1 1 demo_mem)))
     [0x200, 0x201, 0x202, 0x203, 0x204, 0x205] = [1, 2, 3, 4, 5, demo_mem 0x205]"
  by (simp add: demo_simps demo_mem_def store16_def word_sless_alt)

lemma scenario_no_address:
  "calls (run demo_start demo_end [NssFall, NssRise] (initial SPI1 1 demo_mem)) = []"
  by (simp add: demo_simps)

lemma scenario_deep_queue:
  "dr_log (spi (run demo_start demo_end
     [NssFall, Clock 0x10, SpiIrq, Clock 1, SpiIrq, Clock 2, SpiIrq] (initial SPI1 3 demo_mem)))
     = [0xAA, 0xBB, 0xCC, 0, 0]"
  by (simp add: demo_simps demo_mem_def store16_def word_sless_alt upt_rec)

section \<open>The claims\<close>

text \<open>
  Claim C1. In a select cycle that reaches the data phase, the count passed to the end
  handler is the number of data bytes received, whatever the capacity of the \<open>rx\<close>
  span: each data byte is stored at the offset of the count only while the count is
  below the span's size, and the count goes up for every data byte. The cycle starts
  with the receive queue empty and the count at zero, \<open>a\<close> is the address byte, \<open>ds\<close>
  are the data bytes, and the interrupt has read all of them when select rises. The
  count is a 32 bit signed integer: it is the number of data bytes as such an integer,
  and that number itself below \<open>2 ^ 31\<close> bytes.
\<close>

theorem rx_count_exact:
  assumes "rxfifo (spi s) = []" and "rx_bytes s = 0"
    and "\<forall>e\<in>set evs. \<not> select_edge e"
    and "clocked evs = a # ds"
    and "rxfifo (spi (run sh eh (NssFall # evs) s)) = []"
  shows "calls (run sh eh (NssFall # evs @ [NssRise]) s) =
           calls s @ [StartCall (ucast a),
                      EndCall (ucast a) (sint (of_nat (length ds) :: 32 word))] \<and>
         (length ds < 2 ^ 31 \<longrightarrow>
            calls (run sh eh (NssFall # evs @ [NssRise]) s) =
              calls s @ [StartCall (ucast a), EndCall (ucast a) (int (length ds))]) \<and>
         mem (run sh eh (NssFall # evs) s) =
           rx_stores (rx (fst (sh (ucast a) (mem (ISR_HandleNssFall s))))) 0 ds
             (snd (sh (ucast a) (mem (ISR_HandleNssFall s)))) \<and>
         (mode t = kTransfer \<and> rxfifo (spi t) = b # bs \<longrightarrow>
            rx_bytes (ISR_SPI_body sh t) = rx_bytes t + 1 \<and>
            mem (ISR_SPI_body sh t) =
              (if rx_bytes t <s sp_size (rx (buffer t))
               then (mem t)(sp_data (rx (buffer t)) + rx_bytes t := b) else mem t))"
proof -
  have d: "run sh eh (NssFall # evs @ [NssRise]) s =
      ISR_HandleNssRise eh (run sh eh (NssFall # evs) s)"
    using run_snoc [of sh eh "NssFall # evs" NssRise s] by simp
  have cycle: "calls (run sh eh (NssFall # evs @ [NssRise]) s) =
           calls s @ [StartCall (ucast a),
                      EndCall (ucast a) (sint (of_nat (length ds) :: 32 word))] \<and>
         (length ds < 2 ^ 31 \<longrightarrow>
            calls (run sh eh (NssFall # evs @ [NssRise]) s) =
              calls s @ [StartCall (ucast a), EndCall (ucast a) (int (length ds))]) \<and>
         mem (run sh eh (NssFall # evs) s) =
           rx_stores (rx (fst (sh (ucast a) (mem (ISR_HandleNssFall s))))) 0 ds
             (snd (sh (ucast a) (mem (ISR_HandleNssFall s))))"
    unfolding d
    using transaction_state [OF assms(1,3,4,5)] Rise_fields [of eh "run sh eh (NssFall # evs) s"]
    by (simp add: assms(2) sint_of_nat_small)
  have byte: "rx_bytes (ISR_SPI_body sh t) = rx_bytes t + 1 \<and>
            mem (ISR_SPI_body sh t) =
              (if rx_bytes t <s sp_size (rx (buffer t))
               then (mem t)(sp_data (rx (buffer t)) + rx_bytes t := b) else mem t)"
    if "mode t = kTransfer" "rxfifo (spi t) = b # bs"
    unfolding body_transfer [OF that]
    using ISR_PrepareTx_frame [of "t\<lparr>spi := (spi t)\<lparr>rxfifo := bs\<rparr>,
       mem := (if rx_bytes t <s sp_size (rx (buffer t))
               then (mem t)(sp_data (rx (buffer t)) + rx_bytes t := b) else mem t),
       rx_bytes := rx_bytes t + 1\<rparr>"]
    by simp
  from cycle byte show ?thesis by blast
qed

theorem rx_count_exact_witness:
  "calls (run demo_start demo_end
     (NssFall # [Clock 0x10, SpiIrq, Clock 1, SpiIrq, Clock 2, SpiIrq, Clock 3, SpiIrq,
                 Clock 4, SpiIrq, Clock 5, SpiIrq, Clock 6, SpiIrq] @ [NssRise])
     (initial SPI1 1 demo_mem)) = [StartCall 0x10, EndCall 0x10 6]"
  using rx_count_exact [where s = "initial SPI1 1 demo_mem"
      and evs = "[Clock 0x10, SpiIrq, Clock 1, SpiIrq, Clock 2, SpiIrq, Clock 3, SpiIrq,
        Clock 4, SpiIrq, Clock 5, SpiIrq, Clock 6, SpiIrq]" and a = "0x10"
      and ds = "[1, 2, 3, 4, 5, 6]" and sh = demo_start and eh = demo_end
      and t = "initial SPI1 1 demo_mem" and b = 0 and bs = "[]"]
  by (simp add: demo_simps)



text \<open>
  Claim C3. In every select cycle the start handler is called once, with the address
  byte as its argument, when that byte is read and before any data byte is handled.
  At every point of the cycle either no byte has been read and nothing has been
  called, or the first byte \<open>a\<close> has been read, the only call added is the start call
  with \<open>a\<close>, the mode is \<open>kTransfer\<close>, \<open>buffer_\<close> is the pair the handler returned, and
  the memory is the memory the handler left with the data bytes stored through the
  returned span.
\<close>

theorem start_callback_once:
  assumes "rxfifo (spi s) = []" and "\<forall>e\<in>set evs. \<not> select_edge e"
  shows "((mode (run sh eh (NssFall # evs) s) = kWaitingAddress \<and>
           rxfifo (spi (run sh eh (NssFall # evs) s)) = clocked evs \<and>
           calls (run sh eh (NssFall # evs) s) = calls s \<and>
           mem (run sh eh (NssFall # evs) s) = mem (ISR_HandleNssFall s)) \<or>
          (\<exists>a cs. clocked evs = a # cs @ rxfifo (spi (run sh eh (NssFall # evs) s)) \<and>
             mode (run sh eh (NssFall # evs) s) = kTransfer \<and>
             calls (run sh eh (NssFall # evs) s) = calls s @ [StartCall (ucast a)] \<and>
             current_address (run sh eh (NssFall # evs) s) = ucast a \<and>
             buffer (run sh eh (NssFall # evs) s) =
               fst (sh (ucast a) (mem (ISR_HandleNssFall s))) \<and>
             mem (run sh eh (NssFall # evs) s) =
               rx_stores (rx (fst (sh (ucast a) (mem (ISR_HandleNssFall s))))) (rx_bytes s) cs
                 (snd (sh (ucast a) (mem (ISR_HandleNssFall s)))))) \<and>
         (mode t = kWaitingAddress \<and> rxfifo (spi t) = b # bs \<longrightarrow>
            calls (ISR_SPI_body sh t) = calls t @ [StartCall (ucast b)] \<and>
            current_address (ISR_SPI_body sh t) = ucast b \<and>
            buffer (ISR_SPI_body sh t) = fst (sh (ucast b) (mem t)) \<and>
            mem (ISR_SPI_body sh t) = snd (sh (ucast b) (mem t)) \<and>
            mode (ISR_SPI_body sh t) = kTransfer \<and>
            rx_bytes (ISR_SPI_body sh t) = rx_bytes t \<and>
            rxfifo (spi (ISR_SPI_body sh t)) = bs)"
proof (rule conjI)
  have F: "calls (ISR_HandleNssFall s) = calls s" "rx_bytes (ISR_HandleNssFall s) = rx_bytes s"
    using Fall_fields [of s] assms(1) by simp_all
  from run_cycle [OF assms(2), of s sh eh]
  show "(mode (run sh eh (NssFall # evs) s) = kWaitingAddress \<and>
           rxfifo (spi (run sh eh (NssFall # evs) s)) = clocked evs \<and>
           calls (run sh eh (NssFall # evs) s) = calls s \<and>
           mem (run sh eh (NssFall # evs) s) = mem (ISR_HandleNssFall s)) \<or>
          (\<exists>a cs. clocked evs = a # cs @ rxfifo (spi (run sh eh (NssFall # evs) s)) \<and>
             mode (run sh eh (NssFall # evs) s) = kTransfer \<and>
             calls (run sh eh (NssFall # evs) s) = calls s @ [StartCall (ucast a)] \<and>
             current_address (run sh eh (NssFall # evs) s) = ucast a \<and>
             buffer (run sh eh (NssFall # evs) s) =
               fst (sh (ucast a) (mem (ISR_HandleNssFall s))) \<and>
             mem (run sh eh (NssFall # evs) s) =
               rx_stores (rx (fst (sh (ucast a) (mem (ISR_HandleNssFall s))))) (rx_bytes s) cs
                 (snd (sh (ucast a) (mem (ISR_HandleNssFall s)))))"
    unfolding still_waiting_def addressed_def F by (auto simp: assms(1))
next
  show "mode t = kWaitingAddress \<and> rxfifo (spi t) = b # bs \<longrightarrow>
            calls (ISR_SPI_body sh t) = calls t @ [StartCall (ucast b)] \<and>
            current_address (ISR_SPI_body sh t) = ucast b \<and>
            buffer (ISR_SPI_body sh t) = fst (sh (ucast b) (mem t)) \<and>
            mem (ISR_SPI_body sh t) = snd (sh (ucast b) (mem t)) \<and>
            mode (ISR_SPI_body sh t) = kTransfer \<and>
            rx_bytes (ISR_SPI_body sh t) = rx_bytes t \<and>
            rxfifo (spi (ISR_SPI_body sh t)) = bs"
  proof
    assume "mode t = kWaitingAddress \<and> rxfifo (spi t) = b # bs"
    then have m: "mode t = kWaitingAddress" and r: "rxfifo (spi t) = b # bs" by simp_all
    show "calls (ISR_SPI_body sh t) = calls t @ [StartCall (ucast b)] \<and>
         current_address (ISR_SPI_body sh t) = ucast b \<and>
         buffer (ISR_SPI_body sh t) = fst (sh (ucast b) (mem t)) \<and>
         mem (ISR_SPI_body sh t) = snd (sh (ucast b) (mem t)) \<and>
         mode (ISR_SPI_body sh t) = kTransfer \<and>
         rx_bytes (ISR_SPI_body sh t) = rx_bytes t \<and>
         rxfifo (spi (ISR_SPI_body sh t)) = bs"
      unfolding body_address [OF m r]
      using ISR_PrepareTx_frame [of "t\<lparr>spi := (spi t)\<lparr>rxfifo := bs\<rparr>,
        current_address := ucast b,
        buffer := fst (sh (ucast b) (mem t)),
        mem := snd (sh (ucast b) (mem t)),
        calls := calls t @ [StartCall (ucast b)]\<rparr>"]
      by simp
  qed
qed

theorem start_callback_once_witness:
  "calls (run demo_start demo_end (NssFall # [Clock 0x10, SpiIrq, Clock 1, SpiIrq])
     (initial SPI1 1 demo_mem)) = [StartCall 0x10] \<and>
   buffer (run demo_start demo_end (NssFall # [Clock 0x10, SpiIrq, Clock 1, SpiIrq])
     (initial SPI1 1 demo_mem)) = demo_buffer \<and>
   calls (run demo_start demo_end (NssFall # [Clock 0x10, PollMs]) (initial SPI1 1 demo_mem)) = []"
  using start_callback_once [where s = "initial SPI1 1 demo_mem"
      and evs = "[Clock 0x10, SpiIrq, Clock 1, SpiIrq]" and sh = demo_start and eh = demo_end
      and t = "initial SPI1 1 demo_mem" and b = 0 and bs = "[]"]
    start_callback_once [where s = "initial SPI1 1 demo_mem" and evs = "[Clock 0x10, PollMs]"
      and sh = demo_start and eh = demo_end and t = "initial SPI1 1 demo_mem" and b = 0 and bs = "[]"]
  by (simp add: demo_simps)

text \<open>
  Claim C4. The end handler is called at most once per select cycle: the rising edge
  calls it once, with the current address and the receive count, when the mode is
  \<open>kTransfer\<close>, and not at all when the mode is \<open>kWaitingAddress\<close> or \<open>kInactive\<close>;
  nothing between the two edges of a cycle calls it; after the rising edge the mode is
  \<open>kInactive\<close>. Over any sequence of events after construction there are no more end
  calls than falling edges.
\<close>

theorem end_callback_once_per_cycle:
  "calls (ISR_HandleNssRise eh s) =
     calls s @ (if mode s = kTransfer
                then [EndCall (current_address s) (sint (rx_bytes s))] else []) \<and>
   mode (ISR_HandleNssRise eh s) = kInactive \<and>
   ((\<forall>e\<in>set evs. \<not> select_edge e) \<longrightarrow>
      filter is_end (calls (run sh eh (NssFall # evs) s)) = filter is_end (calls s) \<and>
      calls (run sh eh (NssFall # evs @ [NssRise]) s) =
        calls (run sh eh (NssFall # evs) s) @
          (if mode (run sh eh (NssFall # evs) s) = kTransfer
           then [EndCall (current_address (run sh eh (NssFall # evs) s))
                   (sint (rx_bytes (run sh eh (NssFall # evs) s)))]
           else []) \<and>
      mode (run sh eh (NssFall # evs @ [NssRise]) s) = kInactive) \<and>
   length (filter is_end (calls (run sh eh trace (initial i depth m))))
     \<le> length (filter (\<lambda>e. e = NssFall) trace)"
proof -
  have a: "calls (ISR_HandleNssRise eh s) =
     calls s @ (if mode s = kTransfer
                then [EndCall (current_address s) (sint (rx_bytes s))] else [])"
    and b: "mode (ISR_HandleNssRise eh s) = kInactive"
    using Rise_fields [of eh s] by simp_all
  have c: "filter is_end (calls (run sh eh (NssFall # evs) s)) = filter is_end (calls s)"
    if "\<forall>e\<in>set evs. \<not> select_edge e"
    using run_cycle [OF that, of s sh eh] Fall_fields [of s]
    by (auto simp: still_waiting_def addressed_def)
  have d: "run sh eh (NssFall # evs @ [NssRise]) s =
      ISR_HandleNssRise eh (run sh eh (NssFall # evs) s)"
    using run_snoc [of sh eh "NssFall # evs" NssRise s] by simp
  have e: "length (filter is_end (calls (run sh eh trace (initial i depth m))))
     \<le> length (filter (\<lambda>e. e = NssFall) trace)"
  proof -
    have "length (filter is_end (calls (run sh eh trace (initial i depth m))))
        \<le> pending_end (run sh eh trace (initial i depth m))"
      by (simp add: pending_end_def)
    also have "\<dots> \<le> pending_end (initial i depth m) + length (filter (\<lambda>e. e = NssFall) trace)"
      by (rule run_pending_end)
    also have "pending_end (initial i depth m) = 0"
      by (simp add: pending_end_def initial_def)
    finally show ?thesis by simp
  qed
  show ?thesis
    using a b c e Rise_fields [of eh "run sh eh (NssFall # evs) s"] unfolding d by simp
qed

theorem end_callback_once_per_cycle_witness:
  "calls (run demo_start demo_end (NssFall # [Clock 0x10, SpiIrq, Clock 1, SpiIrq] @ [NssRise])
     (initial SPI1 1 demo_mem)) = [StartCall 0x10, EndCall 0x10 1] \<and>
   calls (run demo_start demo_end (NssFall # [Clock 0x10] @ [NssRise]) (initial SPI1 1 demo_mem)) = []"
  using end_callback_once_per_cycle [where eh = demo_end and s = "initial SPI1 1 demo_mem"
      and evs = "[Clock 0x10, SpiIrq, Clock 1, SpiIrq]" and sh = demo_start and trace = "[]"
      and depth = 1 and m = demo_mem and i = SPI1]
    end_callback_once_per_cycle [where eh = demo_end and s = "initial SPI1 1 demo_mem"
      and evs = "[Clock 0x10]" and sh = demo_start and trace = "[]"
      and depth = 1 and m = demo_mem and i = SPI1]
  by (simp add: demo_simps)

text \<open>
  Claim C5, amended. The falling edge of select takes the object to
  \<open>kWaitingAddress\<close>, calls no handler and leaves \<open>tx_bytes_\<close> and \<open>rx_bytes_\<close> as they
  are. The counters are set to zero by the rising edge. After construction they are
  zero whenever the mode is \<open>kInactive\<close>, so a falling edge that finds the object
  inactive starts the cycle with both counters at zero.
\<close>

theorem counters_reset_at_deassertion:
  "mode (ISR_HandleNssFall s) = kWaitingAddress \<and>
   tx_bytes (ISR_HandleNssFall s) = tx_bytes s \<and>
   rx_bytes (ISR_HandleNssFall s) = rx_bytes s \<and>
   calls (ISR_HandleNssFall s) = calls s \<and>
   tx_bytes (ISR_HandleNssRise eh s) = 0 \<and>
   rx_bytes (ISR_HandleNssRise eh s) = 0 \<and>
   (mode (run sh eh trace (initial i depth m)) = kInactive \<longrightarrow>
      tx_bytes (run sh eh trace (initial i depth m)) = 0 \<and>
      rx_bytes (run sh eh trace (initial i depth m)) = 0 \<and>
      tx_bytes (run sh eh (trace @ [NssFall]) (initial i depth m)) = 0 \<and>
      rx_bytes (run sh eh (trace @ [NssFall]) (initial i depth m)) = 0 \<and>
      mode (run sh eh (trace @ [NssFall]) (initial i depth m)) = kWaitingAddress)"
proof -
  have z: "mode (initial i depth m) = kInactive \<longrightarrow>
      tx_bytes (initial i depth m) = 0 \<and> rx_bytes (initial i depth m) = 0"
    by (simp add: initial_def)
  show ?thesis
    using Fall_fields [of s] Rise_fields [of eh s] run_inactive_zero [OF z, of sh eh trace]
      Fall_fields [of "run sh eh trace (initial i depth m)"]
    by (simp add: run_snoc)
qed

theorem counters_reset_at_deassertion_witness:
  "tx_bytes (run demo_start demo_end
     ([NssFall, Clock 0x10, SpiIrq, Clock 1, SpiIrq, NssRise] @ [NssFall]) (initial SPI1 1 demo_mem)) = 0 \<and>
   rx_bytes (run demo_start demo_end
     ([NssFall, Clock 0x10, SpiIrq, Clock 1, SpiIrq, NssRise] @ [NssFall]) (initial SPI1 1 demo_mem)) = 0"
proof -
  have "mode (run demo_start demo_end [NssFall, Clock 0x10, SpiIrq, Clock 1, SpiIrq, NssRise]
      (initial SPI1 1 demo_mem)) = kInactive"
    by (simp add: demo_simps)
  with counters_reset_at_deassertion [where sh = demo_start and eh = demo_end
      and trace = "[NssFall, Clock 0x10, SpiIrq, Clock 1, SpiIrq, NssRise]"
      and depth = 1 and m = demo_mem and i = SPI1 and s = "initial SPI1 1 demo_mem"]
  show ?thesis by blast
qed

text \<open>
  Claim C5 as stated has the counters reset by the falling edge and at no other time.
  In the concrete transaction the receive count is 1 after one data byte and 0 after
  the rising edge; a falling edge in its place leaves both counters as they were.
\<close>

theorem counters_reset_at_assertion_counterexample:
  "rx_bytes (run demo_start demo_end [NssFall, Clock 0x10, SpiIrq, Clock 1, SpiIrq]
      (initial SPI1 1 demo_mem)) = 1 \<and>
   rx_bytes (run demo_start demo_end [NssFall, Clock 0x10, SpiIrq, Clock 1, SpiIrq, NssRise]
      (initial SPI1 1 demo_mem)) = 0 \<and>
   rx_bytes (run demo_start demo_end [NssFall, Clock 0x10, SpiIrq, Clock 1, SpiIrq, NssFall]
      (initial SPI1 1 demo_mem)) \<noteq> 0 \<and>
   tx_bytes (run demo_start demo_end [NssFall, Clock 0x10, SpiIrq, Clock 1, SpiIrq, NssFall]
      (initial SPI1 1 demo_mem)) \<noteq> 0"
  by (simp add: demo_simps)

text \<open>
  Claim C6. A byte received while the mode is \<open>kInactive\<close> is read and dropped, and
  nothing else changes: no handler is called, the counts, the current address, the
  buffers and the memory stay as they are, nothing is written to the transmit queue,
  and the mode stays \<open>kInactive\<close>.
\<close>

theorem inactive_byte_discarded:
  assumes "mode s = kInactive" and "rxfifo (spi s) = b # bs"
  shows "ISR_SPI_body sh s = s\<lparr>spi := (spi s)\<lparr>rxfifo := bs\<rparr>\<rparr> \<and>
         ISR_SPI sh s = s\<lparr>spi := (spi s)\<lparr>rxfifo := []\<rparr>\<rparr> \<and>
         calls (ISR_SPI sh s) = calls s \<and> mem (ISR_SPI sh s) = mem s \<and>
         tx_bytes (ISR_SPI sh s) = tx_bytes s \<and> rx_bytes (ISR_SPI sh s) = rx_bytes s \<and>
         current_address (ISR_SPI sh s) = current_address s \<and>
         buffer (ISR_SPI sh s) = buffer s \<and> mode (ISR_SPI sh s) = kInactive \<and>
         dr_log (spi (ISR_SPI sh s)) = dr_log (spi s) \<and>
         txfifo (spi (ISR_SPI sh s)) = txfifo (spi s)"
  using assms by (simp add: body_inactive ISR_SPI_inactive)

theorem inactive_byte_discarded_witness:
  "ISR_SPI demo_start ((initial SPI1 1 demo_mem)\<lparr>spi := (spi (initial SPI1 1 demo_mem))\<lparr>rxfifo := [7, 8]\<rparr>\<rparr>)
     = initial SPI1 1 demo_mem \<and>
   calls (ISR_SPI demo_start
     ((initial SPI1 1 demo_mem)\<lparr>spi := (spi (initial SPI1 1 demo_mem))\<lparr>rxfifo := [7, 8]\<rparr>\<rparr>)) = []"
  using inactive_byte_discarded [of "(initial SPI1 1 demo_mem)\<lparr>spi := (spi (initial SPI1 1 demo_mem))\<lparr>rxfifo := [7, 8]\<rparr>\<rparr>" 7 "[8]" demo_start]
  by (simp add: initial_def)

text \<open>
  Claim C7, amended. A falling edge of select without a rising edge before it acts as
  any falling edge does: the mode becomes \<open>kWaitingAddress\<close>, no handler is called and
  the counters, the stored address and the stored buffers are not changed. From
  \<open>kWaitingAddress\<close> the mode stays as it is; from \<open>kTransfer\<close> the open transfer is
  given up, and a rising edge right after calls no end handler. The next rising edge
  leaves \<open>kInactive\<close>, and calls the end handler only when an address byte was read
  after the falling edge, with a count that continues from the count the falling edge
  found.
\<close>

theorem reassertion_rearms:
  assumes "rxfifo (spi s) = []"
  shows "mode (ISR_HandleNssFall s) = kWaitingAddress \<and>
   calls (ISR_HandleNssFall s) = calls s \<and>
   tx_bytes (ISR_HandleNssFall s) = tx_bytes s \<and>
   rx_bytes (ISR_HandleNssFall s) = rx_bytes s \<and>
   current_address (ISR_HandleNssFall s) = current_address s \<and>
   buffer (ISR_HandleNssFall s) = buffer s \<and>
   calls (run sh eh [NssFall, NssRise] s) = calls s \<and>
   mode (run sh eh [NssFall, NssRise] s) = kInactive \<and>
   ((\<forall>e\<in>set evs. \<not> select_edge e) \<and> clocked evs = a # ds \<and>
    rxfifo (spi (run sh eh (NssFall # evs) s)) = [] \<longrightarrow>
      calls (run sh eh (NssFall # evs @ [NssRise]) s) =
        calls s @ [StartCall (ucast a),
                   EndCall (ucast a) (sint (rx_bytes s + of_nat (length ds)))] \<and>
      mode (run sh eh (NssFall # evs @ [NssRise]) s) = kInactive)"
proof -
  have two: "calls (run sh eh [NssFall, NssRise] s) = calls s \<and>
      mode (run sh eh [NssFall, NssRise] s) = kInactive"
    using Fall_fields [of s] Rise_fields [of eh "ISR_HandleNssFall s"] by simp
  have three: "calls (run sh eh (NssFall # evs @ [NssRise]) s) =
        calls s @ [StartCall (ucast a),
                   EndCall (ucast a) (sint (rx_bytes s + of_nat (length ds)))] \<and>
      mode (run sh eh (NssFall # evs @ [NssRise]) s) = kInactive"
    if "\<forall>e\<in>set evs. \<not> select_edge e" "clocked evs = a # ds"
      "rxfifo (spi (run sh eh (NssFall # evs) s)) = []"
  proof -
    have d: "run sh eh (NssFall # evs @ [NssRise]) s =
        ISR_HandleNssRise eh (run sh eh (NssFall # evs) s)"
      using run_snoc [of sh eh "NssFall # evs" NssRise s] by simp
    show ?thesis
      unfolding d
      using transaction_state [OF assms that] Rise_fields [of eh "run sh eh (NssFall # evs) s"]
      by simp
  qed
  show ?thesis
    using Fall_fields [of s] two three by simp
qed

theorem reassertion_rearms_witness:
  "calls (run demo_start demo_end
     ([NssFall, Clock 0x10, SpiIrq, Clock 1, SpiIrq] @
      NssFall # [Clock 0x20, SpiIrq, Clock 7, SpiIrq, Clock 8, SpiIrq] @ [NssRise])
     (initial SPI1 1 demo_mem)) = [StartCall 0x10, StartCall 0x20, EndCall 0x20 3]"
proof -
  define s where "s = run demo_start demo_end [NssFall, Clock 0x10, SpiIrq, Clock 1, SpiIrq]
     (initial SPI1 1 demo_mem)"
  have s: "rxfifo (spi s) = []" "calls s = [StartCall 0x10]" "rx_bytes s = 1"
    "rxfifo (spi (run demo_start demo_end
       (NssFall # [Clock 0x20, SpiIrq, Clock 7, SpiIrq, Clock 8, SpiIrq]) s)) = []"
    unfolding s_def by (simp_all add: demo_simps)
  have "calls (run demo_start demo_end
      (NssFall # [Clock 0x20, SpiIrq, Clock 7, SpiIrq, Clock 8, SpiIrq] @ [NssRise]) s) =
      [StartCall 0x10, StartCall 0x20, EndCall 0x20 3]"
    using reassertion_rearms [OF s(1), where sh = demo_start and eh = demo_end
        and evs = "[Clock 0x20, SpiIrq, Clock 7, SpiIrq, Clock 8, SpiIrq]"
        and a = "0x20" and ds = "[7, 8]"] s(2,3,4)
    by simp
  then show ?thesis
    unfolding s_def run_append [symmetric] .
qed

text \<open>
  Claim C7 as stated has the object stay in its state. After the address byte the mode
  is \<open>kTransfer\<close>; a second falling edge takes it out of \<open>kTransfer\<close>, and the rising
  edge after that calls no end handler.
\<close>

theorem reassertion_keeps_state_counterexample:
  "mode (run demo_start demo_end [NssFall, Clock 0x10, SpiIrq] (initial SPI1 1 demo_mem)) = kTransfer \<and>
   mode (run demo_start demo_end [NssFall, Clock 0x10, SpiIrq, NssFall] (initial SPI1 1 demo_mem))
     \<noteq> kTransfer \<and>
   calls (run demo_start demo_end [NssFall, Clock 0x10, SpiIrq, NssFall, NssRise]
     (initial SPI1 1 demo_mem)) = [StartCall 0x10]"
  by (simp add: demo_simps)

text \<open>
  Claim C8. Select cycles are independent: after every rising edge the state is reset in
  full, and nothing of the cycle that ends reaches the next one. The rising edge sets
  the mode to \<open>kInactive\<close> and both counters to zero, and calls \<open>Init\<close> to flush the
  queues of the peripheral. For an object on \<open>SPI4\<close> the reset that \<open>EnableSPI\<close> pulses
  goes to \<open>SPI1\<close>, and the queues keep their bytes. Evaluated on the object the
  constructor returns for pins on \<open>SPI4\<close>, with a transmit queue of three places: after a first cycle (address \<open>0x10\<close>, one data
  byte) the mode is \<open>kInactive\<close> and the counters are zero, but the transmit queue still
  holds \<open>BB CC 00\<close> of the first cycle's \<open>tx\<close> view; in the next cycle (address \<open>0x20\<close>,
  whose \<open>tx\<close> view holds \<open>11 22 33\<close>) the master receives \<open>BB\<close>, \<open>CC\<close> and \<open>00\<close>. The
  same events on \<open>SPI1\<close> leave the queue empty, and the master receives nothing queued
  during the address byte and then \<open>11\<close> and \<open>22\<close>.
\<close>

theorem spi4_queue_survives_deassertion:
  "construct demo_platform demo_maps 3 demo_mem2
     \<lparr>mosi = 47, miso = 46, sclk = 45, ssel = 44, pin_status_led = 13\<rparr>
     = Inr (initial SPI4 3 demo_mem2) \<and>
   mode (run demo_start2 demo_end [NssFall, Clock 0x10, SpiIrq, Clock 1, SpiIrq, NssRise]
     (initial SPI4 3 demo_mem2)) = kInactive \<and>
   tx_bytes (run demo_start2 demo_end [NssFall, Clock 0x10, SpiIrq, Clock 1, SpiIrq, NssRise]
     (initial SPI4 3 demo_mem2)) = 0 \<and>
   rx_bytes (run demo_start2 demo_end [NssFall, Clock 0x10, SpiIrq, Clock 1, SpiIrq, NssRise]
     (initial SPI4 3 demo_mem2)) = 0 \<and>
   txfifo (spi (run demo_start2 demo_end [NssFall, Clock 0x10, SpiIrq, Clock 1, SpiIrq, NssRise]
     (initial SPI4 3 demo_mem2))) = [0xBB, 0xCC, 0] \<and>
   shifted_out demo_start2 demo_end
     [NssFall, Clock 0x20, SpiIrq, Clock 7, SpiIrq, Clock 8, SpiIrq, NssRise]
     (run demo_start2 demo_end [NssFall, Clock 0x10, SpiIrq, Clock 1, SpiIrq, NssRise]
        (initial SPI4 3 demo_mem2)) = [Some 0xBB, Some 0xCC, Some 0] \<and>
   txfifo (spi (run demo_start2 demo_end [NssFall, Clock 0x10, SpiIrq, Clock 1, SpiIrq, NssRise]
     (initial SPI1 3 demo_mem2))) = [] \<and>
   shifted_out demo_start2 demo_end
     [NssFall, Clock 0x20, SpiIrq, Clock 7, SpiIrq, Clock 8, SpiIrq, NssRise]
     (run demo_start2 demo_end [NssFall, Clock 0x10, SpiIrq, Clock 1, SpiIrq, NssRise]
        (initial SPI1 3 demo_mem2)) = [None, Some 0x11, Some 0x22]"
proof -
  have "construct demo_platform demo_maps 3 demo_mem2
     \<lparr>mosi = 47, miso = 46, sclk = 45, ssel = 44, pin_status_led = 13\<rparr>
     = Inr (initial SPI4 3 demo_mem2)"
    by (simp add: construct_def resolve_spi_def merge_def demo_maps_def demo_platform_def
          find_instance_def Init_def EnableSPI_def initial_def)
  then show ?thesis
    by (simp add: eval_simps demo_start2_def demo_buffer_def demo_mem2_def demo_mem_def
          demo_end_def store16_def upt_rec word_sless_alt)
qed

text \<open>
  Claim C9. When the master clocks the address byte only and then releases select, the
  address byte still takes the object to \<open>kTransfer\<close>: the start handler is called with
  the address and the end handler once with the address and the count 0.
\<close>

theorem address_only_transaction:
  assumes "rxfifo (spi s) = []" and "rx_bytes s = 0"
    and "\<forall>e\<in>set evs. \<not> select_edge e"
    and "clocked evs = [a]"
    and "rxfifo (spi (run sh eh (NssFall # evs) s)) = []"
  shows "mode (run sh eh (NssFall # evs) s) = kTransfer \<and>
         calls (run sh eh (NssFall # evs @ [NssRise]) s) =
           calls s @ [StartCall (ucast a), EndCall (ucast a) 0] \<and>
         calls (run sh eh [NssFall, Clock a, SpiIrq, NssRise] s) =
           calls s @ [StartCall (ucast a), EndCall (ucast a) 0]"
proof -
  have d: "run sh eh (NssFall # evs @ [NssRise]) s =
      ISR_HandleNssRise eh (run sh eh (NssFall # evs) s)"
    using run_snoc [of sh eh "NssFall # evs" NssRise s] by simp
  have one: "mode (run sh eh (NssFall # evs) s) = kTransfer \<and>
         calls (run sh eh (NssFall # evs @ [NssRise]) s) =
           calls s @ [StartCall (ucast a), EndCall (ucast a) 0]"
    unfolding d
    using transaction_state [OF assms(1,3,4,5)] Rise_fields [of eh "run sh eh (NssFall # evs) s"]
    by (simp add: assms(2))
  let ?t = "ISR_SPI sh ((ISR_HandleNssFall s)\<lparr>spi := shift_byte a (spi (ISR_HandleNssFall s))\<rparr>)"
  have t: "run sh eh [NssFall, Clock a, SpiIrq] s = ?t" by simp
  have "mode ?t = kTransfer \<and> calls ?t = calls s @ [StartCall (ucast a)] \<and>
     current_address ?t = ucast a \<and> rx_bytes ?t = 0"
    using ISR_SPI_address [of "(ISR_HandleNssFall s)\<lparr>spi := shift_byte a (spi (ISR_HandleNssFall s))\<rparr>" a "[]" sh]
      Fall_fields [of s] assms(1,2)
    by (simp add: shift_byte_def)
  then have "calls (run sh eh [NssFall, Clock a, SpiIrq, NssRise] s) =
           calls s @ [StartCall (ucast a), EndCall (ucast a) 0]"
    using Rise_fields [of eh ?t] by simp
  with one show ?thesis by simp
qed

theorem address_only_transaction_witness:
  "calls (run demo_start demo_end (NssFall # [Clock 0x10, PollMs, SpiIrq] @ [NssRise])
     (initial SPI1 1 demo_mem)) = [StartCall 0x10, EndCall 0x10 0]"
  using address_only_transaction [of "initial SPI1 1 demo_mem" "[Clock 0x10, PollMs, SpiIrq]" "0x10"
      demo_start demo_end]
  by (simp add: demo_simps)

text \<open>
  Claim C10. Construction finds a peripheral exactly when the four pins map to the
  same one: the nested \<open>merge\<close> of the four lookups is their common value when they
  are equal and the null value otherwise, and on the null value the assertion of the
  constructor fails, so no object exists. An object that was constructed has all four
  pins on the peripheral it uses.
\<close>

theorem construct_resolves_common_instance:
  "resolve_spi maps pins =
     (if PinMap_SPI_MOSI maps (mosi pins) = PinMap_SPI_MISO maps (miso pins) \<and>
         PinMap_SPI_MISO maps (miso pins) = PinMap_SPI_SCLK maps (sclk pins) \<and>
         PinMap_SPI_SCLK maps (sclk pins) = PinMap_SPI_SSEL maps (ssel pins)
      then PinMap_SPI_SSEL maps (ssel pins) else 0) \<and>
   (construct platform maps depth m pins = Inl AssertionFailed) = (resolve_spi maps pins = 0) \<and>
   (\<forall>obj. construct platform maps depth m pins = Inr obj \<longrightarrow>
      resolve_spi maps pins \<noteq> 0 \<and>
      PinMap_SPI_MOSI maps (mosi pins) = resolve_spi maps pins \<and>
      PinMap_SPI_MISO maps (miso pins) = resolve_spi maps pins \<and>
      PinMap_SPI_SCLK maps (sclk pins) = resolve_spi maps pins \<and>
      PinMap_SPI_SSEL maps (ssel pins) = resolve_spi maps pins)"
  by (auto simp: resolve_spi_def construct_def Let_def merge3 split: if_splits option.splits)

theorem construct_resolves_common_instance_witness:
  "construct demo_platform demo_maps 1 demo_mem
     \<lparr>mosi = 7, miso = 6, sclk = 5, ssel = 4, pin_status_led = 13\<rparr>
     = Inr (initial SPI1 1 demo_mem) \<and>
   resolve_spi demo_maps \<lparr>mosi = 7, miso = 6, sclk = 5, ssel = 4, pin_status_led = 13\<rparr>
     = 0x40013000 \<and>
   construct demo_platform demo_maps 1 demo_mem
     \<lparr>mosi = 7, miso = 6, sclk = 29, ssel = 4, pin_status_led = 13\<rparr> = Inl AssertionFailed"
  using construct_resolves_common_instance [of demo_maps
      "\<lparr>mosi = 7, miso = 6, sclk = 5, ssel = 4, pin_status_led = 13\<rparr>" demo_platform 1 demo_mem]
    construct_resolves_common_instance [of demo_maps
      "\<lparr>mosi = 7, miso = 6, sclk = 29, ssel = 4, pin_status_led = 13\<rparr>" demo_platform 1 demo_mem]
  by (simp add: demo_maps_def demo_platform_def NC_def construct_def find_instance_def
        Init_def EnableSPI_def initial_def)

end
